theory Spec2Isabelle
  imports Main "HOL-Library.AList"
begin

section \<open>JavaScript values and strings\<close>

text \<open>
  The converter and the settings migration work on parsed JSON. A value of the program is
  one of JavaScript's: \<open>undefined\<close> (what reading an absent property gives), \<open>null\<close>, a
  boolean, a number, a string, an array or an object. Numbers are the integral ones
  (indices, versions, enum codes); an object is the list of its own properties in the
  order the engine enumerates them, which is the order \<open>Object.values\<close> follows (in
  an object of the program no key occurs twice; a lookup takes the first). A string is a
  list of code units below 256.
\<close>

datatype jsval =
    JUndefined
  | JNull
  | JBool bool
  | JNum int
  | JStr string
  | JArr "jsval list"
  | JObj "(string \<times> jsval) list"

datatype error = UnknownInputFormat | TypeError

fun truthy :: "jsval \<Rightarrow> bool" where
  "truthy JUndefined = False"
| "truthy JNull = False"
| "truthy (JBool b) = b"
| "truthy (JNum n) = (n \<noteq> 0)"
| "truthy (JStr s) = (s \<noteq> [])"
| "truthy (JArr xs) = True"
| "truthy (JObj kvs) = True"

fun nullish :: "jsval \<Rightarrow> bool" where
  "nullish JUndefined = True"
| "nullish JNull = True"
| "nullish v = False"

definition js_or :: "jsval \<Rightarrow> jsval \<Rightarrow> jsval" where
  \<comment> \<open>\<open>a || b\<close>\<close>
  "js_or a b = (if truthy a then a else b)"

fun isArray :: "jsval \<Rightarrow> bool" where
  "isArray (JArr xs) = True"
| "isArray v = False"

fun getProp :: "jsval \<Rightarrow> string \<Rightarrow> jsval" where
  \<comment> \<open>\<open>v.k\<close> on a receiver that is neither \<open>undefined\<close> nor \<open>null\<close>, for the property
      names this program reads: an object gives its own property, every other value
      gives \<open>undefined\<close>. (The one name among them that arrays inherit is \<open>entries\<close>;
      the program reads it only in \<open>inputData.entries || Array.isArray(inputData)\<close>,
      which is true for an array either way.)\<close>
  "getProp (JObj kvs) k = (case map_of kvs k of Some v \<Rightarrow> v | None \<Rightarrow> JUndefined)"
| "getProp v k = JUndefined"

fun objectValues :: "jsval \<Rightarrow> jsval list" where
  \<comment> \<open>\<open>Object.values(v)\<close> on a truthy value\<close>
  "objectValues (JObj kvs) = map snd kvs"
| "objectValues (JArr xs) = xs"
| "objectValues (JStr s) = map (\<lambda>c. JStr [c]) s"
| "objectValues v = []"

subsection \<open>String primitives\<close>

definition isLineTerminator :: "char \<Rightarrow> bool" where
  \<comment> \<open>the characters that \<open>.\<close> does not match\<close>
  "isLineTerminator c = (c = CHR 0x0A \<or> c = CHR 0x0D)"

definition isWhiteSpace :: "char \<Rightarrow> bool" where
  \<comment> \<open>\<open>\s\<close>, and what \<open>trim\<close> strips: tab, LF, VT, FF, CR, space, no-break space\<close>
  "isWhiteSpace c =
     (c = CHR 0x09 \<or> c = CHR 0x0A \<or> c = CHR 0x0B \<or> c = CHR 0x0C \<or> c = CHR 0x0D
      \<or> c = CHR 0x20 \<or> c = CHR 0xA0)"

definition isWordChar :: "char \<Rightarrow> bool" where
  \<comment> \<open>\<open>\w\<close>\<close>
  "isWordChar c =
     (let n = (of_char c :: nat)
      in (97 \<le> n \<and> n \<le> 122) \<or> (65 \<le> n \<and> n \<le> 90) \<or> (48 \<le> n \<and> n \<le> 57) \<or> n = 95)"

definition trimStart :: "string \<Rightarrow> string" where
  "trimStart s = dropWhile isWhiteSpace s"

definition trimEnd :: "string \<Rightarrow> string" where
  "trimEnd s = rev (dropWhile isWhiteSpace (rev s))"

definition trim :: "string \<Rightarrow> string" where
  "trim s = trimEnd (trimStart s)"

definition lowerChar :: "char \<Rightarrow> char" where
  \<comment> \<open>A-Z and the Latin-1 capitals (all of 0xC0-0xDE but the multiplication sign)\<close>
  "lowerChar c =
     (let n = (of_char c :: nat)
      in if (65 \<le> n \<and> n \<le> 90) \<or> (192 \<le> n \<and> n \<le> 222 \<and> n \<noteq> 215)
         then char_of (n + 32) else c)"

definition toLowerCase :: "string \<Rightarrow> string" where
  "toLowerCase s = map lowerChar s"

definition startsWith :: "string \<Rightarrow> string \<Rightarrow> bool" where
  \<comment> \<open>\<open>startsWith p s\<close>: the text \<open>s\<close> begins with \<open>p\<close>\<close>
  "startsWith p s = (take (length p) s = p)"

fun strIncludes :: "string \<Rightarrow> string \<Rightarrow> bool" where
  \<comment> \<open>\<open>s.includes(n)\<close>\<close>
  "strIncludes [] n = (n = [])"
| "strIncludes (c # cs) n = (startsWith n (c # cs) \<or> strIncludes cs n)"

fun removeFirst :: "string \<Rightarrow> string \<Rightarrow> string" where
  \<comment> \<open>\<open>s.replace(pat, '')\<close> with a string pattern: the first occurrence goes\<close>
  "removeFirst pat [] = []"
| "removeFirst pat (c # cs) =
     (if startsWith pat (c # cs) then drop (length pat) (c # cs)
      else c # removeFirst pat cs)"

subsection \<open>The regular expressions of the program\<close>

text \<open>
  Each pattern of the source is written out as the search JavaScript's backtracking
  matcher performs: start positions from left to right, greedy quantifiers longest
  first, lazy ones shortest first.
\<close>

definition bracketTagAt :: "string \<Rightarrow> string \<Rightarrow> string option" where
  \<comment> \<open>\<open>key([^\]]+)\]\<close> at the head of \<open>s\<close>; the result is the capture\<close>
  "bracketTagAt key s =
     (if startsWith key s
      then (let r = drop (length key) s;
                cap = takeWhile (\<lambda>c. c \<noteq> CHR '']'') r
            in if cap \<noteq> [] \<and> length cap < length r then Some cap else None)
      else None)"

fun bracketTagMatch :: "string \<Rightarrow> string \<Rightarrow> string option" where
  \<comment> \<open>\<open>s.match(/key([^\]]+)\]/)\<close>: the capture of the leftmost match\<close>
  "bracketTagMatch key [] = bracketTagAt key []"
| "bracketTagMatch key (c # cs) =
     (case bracketTagAt key (c # cs) of
        Some cap \<Rightarrow> Some cap
      | None \<Rightarrow> bracketTagMatch key cs)"

definition lazyDotUntil :: "char \<Rightarrow> string \<Rightarrow> string option" where
  \<comment> \<open>\<open>(.+?)d\<close> at the head of \<open>s\<close>: the shortest non-empty run without line
      terminators that a \<open>d\<close> follows (its first character may be \<open>d\<close> itself)\<close>
  "lazyDotUntil d s =
     (case s of
        [] \<Rightarrow> None
      | c # r \<Rightarrow>
          if isLineTerminator c then None
          else (let run = takeWhile (\<lambda>x. x \<noteq> d \<and> \<not> isLineTerminator x) r
                in case drop (length run) r of
                     [] \<Rightarrow> None
                   | x # _ \<Rightarrow> if x = d then Some (c # run) else None))"

definition lazyTagAt :: "string \<Rightarrow> string \<Rightarrow> string option" where
  \<comment> \<open>\<open>key(.+?)\]\<close> at the head of \<open>s\<close>\<close>
  "lazyTagAt key s =
     (if startsWith key s then lazyDotUntil (CHR '']'') (drop (length key) s) else None)"

fun lazyTagMatch :: "string \<Rightarrow> string \<Rightarrow> string option" where
  \<comment> \<open>\<open>s.match(/key(.+?)\]/)\<close>\<close>
  "lazyTagMatch key [] = lazyTagAt key []"
| "lazyTagMatch key (c # cs) =
     (case lazyTagAt key (c # cs) of
        Some cap \<Rightarrow> Some cap
      | None \<Rightarrow> lazyTagMatch key cs)"

definition parenAt :: "string \<Rightarrow> string option" where
  \<comment> \<open>\<open>\((.+?)\)\<close> at the head of \<open>s\<close>\<close>
  "parenAt s = (case s of [] \<Rightarrow> None
                | c # r \<Rightarrow> if c = CHR ''('' then lazyDotUntil (CHR '')'') r else None)"

fun nameMatch :: "string \<Rightarrow> string option" where
  \<comment> \<open>\<open>comment.match(/\((.+?)\)/)\<close>\<close>
  "nameMatch [] = None"
| "nameMatch (c # cs) =
     (case parenAt (c # cs) of Some cap \<Rightarrow> Some cap | None \<Rightarrow> nameMatch cs)"

fun categoryFrom :: "string \<Rightarrow> string \<Rightarrow> string option" where
  \<comment> \<open>the lazy \<open>(.+?)\<close> of the category pattern has consumed \<open>acc\<close>; it takes one more
      character and stops as soon as \<open>\s*\(\<close> follows\<close>
  "categoryFrom acc [] = None"
| "categoryFrom acc (c # cs) =
     (if isLineTerminator c then None
      else if startsWith ''('' (dropWhile isWhiteSpace cs) then Some (acc @ [c])
      else categoryFrom (acc @ [c]) cs)"

definition categoryMatch :: "string \<Rightarrow> string option" where
  \<comment> \<open>\<open>comment.match(/^(.+?)\s*\(/)\<close>\<close>
  "categoryMatch s = categoryFrom [] s"

definition loomLabel :: "string \<Rightarrow> string option" where
  \<comment> \<open>\<open>^(?:Loom Utilities|Retrofits|Narrative Style)\<close>: what follows the label\<close>
  "loomLabel s =
     (if startsWith ''Loom Utilities'' s then Some (drop (length ''Loom Utilities'') s)
      else if startsWith ''Retrofits'' s then Some (drop (length ''Retrofits'') s)
      else if startsWith ''Narrative Style'' s then Some (drop (length ''Narrative Style'') s)
      else None)"

definition greedyDotParenEnd :: "string \<Rightarrow> string option" where
  \<comment> \<open>\<open>(.+)\)\s*$\<close>: the closing parenthesis is the last character that is not white
      space, and the capture is all that precedes it\<close>
  "greedyDotParenEnd s =
     (case rev (trimEnd s) of
        [] \<Rightarrow> None
      | c # rcap \<Rightarrow>
          if c = CHR '')'' \<and> rcap \<noteq> [] \<and> (\<forall>x \<in> set rcap. \<not> isLineTerminator x)
          then Some (rev rcap) else None)"

definition loomNameMatch :: "string \<Rightarrow> string option" where
  \<comment> \<open>\<open>comment.match(/^(?:Loom Utilities|Retrofits|Narrative Style)\s*\((.+)\)\s*$/)\<close>\<close>
  "loomNameMatch s =
     (case loomLabel s of
        None \<Rightarrow> None
      | Some r \<Rightarrow>
          (case dropWhile isWhiteSpace r of
             [] \<Rightarrow> None
           | c # body \<Rightarrow> if c = CHR ''('' then greedyDotParenEnd body else None))"

fun untilClose :: "string \<Rightarrow> string option" where
  \<comment> \<open>\<open>([\s\S]*?)}}\<close>: the text before the first \<open>}}\<close>\<close>
  "untilClose [] = None"
| "untilClose (c # cs) =
     (if startsWith ''}}'' (c # cs) then Some []
      else map_option ((#) c) (untilClose cs))"

definition markerAt :: "string \<Rightarrow> string \<Rightarrow> string option" where
  \<comment> \<open>\<open>key\w+::([\s\S]*?)}}\<close> at the head of \<open>s\<close>\<close>
  "markerAt key s =
     (if startsWith key s
      then (let r = drop (length key) s;
                w = takeWhile isWordChar r;
                r2 = drop (length w) r
            in if w \<noteq> [] \<and> startsWith ''::'' r2 then untilClose (drop 2 r2) else None)
      else None)"

fun markerMatch :: "string \<Rightarrow> string \<Rightarrow> string option" where
  "markerMatch key [] = None"
| "markerMatch key (c # cs) =
     (case markerAt key (c # cs) of
        Some cap \<Rightarrow> Some cap
      | None \<Rightarrow> markerMatch key cs)"

section \<open>The pack converter\<close>

subsection \<open>extractMetadata\<close>

record metadata =
  image :: "string option"
  author :: "string option"
  content :: string

definition tagText :: "string \<Rightarrow> string \<Rightarrow> string" where
  \<comment> \<open>\<open>match[0]\<close> of a tag pattern whose capture is \<open>cap\<close>\<close>
  "tagText key cap = key @ cap @ '']''"

definition extractMetadata :: "string \<Rightarrow> metadata" where
  "extractMetadata c =
     (let imgMatch = bracketTagMatch ''[lumia_img='' c;
          (image, cleanContent) =
            (case imgMatch of
               Some cap \<Rightarrow> (Some (trim cap), trim (removeFirst (tagText ''[lumia_img='' cap) c))
             | None \<Rightarrow> (None, c));
          authMatch = bracketTagMatch ''[lumia_author='' c;
          (author, cleanContent) =
            (case authMatch of
               Some cap \<Rightarrow>
                 (Some (trim cap), trim (removeFirst (tagText ''[lumia_author='' cap) cleanContent))
             | None \<Rightarrow> (None, cleanContent))
      in \<lparr>image = image, author = author, content = cleanContent\<rparr>)"

subsection \<open>processWorldBook\<close>

datatype entryType = Definition | Behavior | Personality

type_synonym object = "(string \<times> jsval) list"
  \<comment> \<open>the properties of an object that the program builds itself\<close>

definition setProp :: "object \<Rightarrow> string \<Rightarrow> jsval \<Rightarrow> object" where
  \<comment> \<open>\<open>obj.k = v\<close>: an existing property keeps its place, a new one comes last\<close>
  "setProp obj k v = AList.update k v obj"

definition newLumia :: "string \<Rightarrow> object" where
  "newLumia name =
          [(''lumiaName'', JStr name),
           (''avatarUrl'', JNull),
           (''lumiaPersonality'', JNull),
           (''lumiaBehavior'', JNull),
           (''lumiaDefinition'', JNull),
           (''authorName'', JNull),
           (''genderIdentity'', JNum 0),
           (''version'', JNum 1)]"

definition newLoom :: "string \<Rightarrow> string \<Rightarrow> string \<Rightarrow> jsval" where
  "newLoom loomName loomContent category =
     JObj [(''loomName'', JStr loomName),
           (''loomContent'', JStr loomContent),
           (''loomCategory'', JStr category),
           (''authorName'', JNull),
           (''version'', JNum 1)]"

definition isLoomCategory :: "string \<Rightarrow> bool" where
  "isLoomCategory category =
     (category = ''Loom Utilities'' \<or> category = ''Retrofits'' \<or> category = ''Narrative Style'')"

definition determineType :: "jsval \<Rightarrow> string \<Rightarrow> string option \<Rightarrow> string \<Rightarrow> entryType option" where
  \<comment> \<open>the chain "Determine entry type" on an entry, its trimmed comment, the category
      match of the comment and the entry's content\<close>
  "determineType entry comment catMatch text =
     (let commentLower = toLowerCase comment;
          outletName = getProp entry ''outletName''
      in if outletName = JStr ''Lumia_Description'' \<or> strIncludes commentLower ''definition''
         then Some Definition
         else if outletName = JStr ''Lumia_Behavior'' \<or> strIncludes commentLower ''behavior''
         then Some Behavior
         else if outletName = JStr ''Lumia_Personality'' \<or> strIncludes commentLower ''personality''
         then Some Personality
         else if (case catMatch of Some cat \<Rightarrow> toLowerCase (trim cat) = ''lumia'' | None \<Rightarrow> False)
         then Some Definition
         else if strIncludes text ''[lumia_img=''
         then Some Definition
         else None)"

definition applyType :: "entryType option \<Rightarrow> string \<Rightarrow> object \<Rightarrow> object" where
  \<comment> \<open>what the entry of content \<open>text\<close> writes into the item \<open>lumia\<close> of its name\<close>
  "applyType ty text lumia =
     (case ty of
        Some Definition \<Rightarrow>
          (let meta = extractMetadata text;
               l1 = setProp lumia ''lumiaDefinition'' (JStr (content meta));
               l2 = (case image meta of
                       Some i \<Rightarrow> if i \<noteq> [] then setProp l1 ''avatarUrl'' (JStr i) else l1
                     | None \<Rightarrow> l1)
           in (case author meta of
                 Some a \<Rightarrow> if a \<noteq> [] then setProp l2 ''authorName'' (JStr a) else l2
               | None \<Rightarrow> l2))
      | Some Behavior \<Rightarrow> setProp lumia ''lumiaBehavior'' (JStr text)
      | Some Personality \<Rightarrow>
          (let behaviorMatch = markerMatch ''{{setvar::lumia_behavior_'' text;
               personalityMatch = markerMatch ''{{setglobalvar::lumia_personality_'' text;
               l1 = (case behaviorMatch of
                       Some b \<Rightarrow>
                         if \<not> truthy (getProp (JObj lumia) ''lumiaBehavior'')
                         then setProp lumia ''lumiaBehavior'' (JStr (trim b)) else lumia
                     | None \<Rightarrow> lumia)
           in (case personalityMatch of
                 Some p \<Rightarrow> setProp l1 ''lumiaPersonality'' (JStr (trim p))
               | None \<Rightarrow> setProp l1 ''lumiaPersonality'' (JStr text)))
      | None \<Rightarrow> lumia)"

type_synonym assembly = "(string \<times> object) list \<times> jsval list"
  \<comment> \<open>\<open>lumiaMap\<close>, a Map in insertion order, and \<open>loomItems\<close>\<close>

definition aggregate :: "string \<Rightarrow> entryType option \<Rightarrow> string \<Rightarrow> (string \<times> object) list \<Rightarrow> (string \<times> object) list" where
  \<comment> \<open>"Lumia processing": the item of the name is fetched from the map, or made and
      put there, and the entry writes into it\<close>
  "aggregate name ty text lumiaMap =
     (let (lumia, lumiaMap1) =
            (case map_of lumiaMap name of
               Some l \<Rightarrow> (l, lumiaMap)
             | None \<Rightarrow> (newLumia name, AList.update name (newLumia name) lumiaMap))
      in AList.update name (applyType ty text lumia) lumiaMap1)"

definition processLumia :: "jsval \<Rightarrow> string \<Rightarrow> string option \<Rightarrow> string \<Rightarrow> assembly \<Rightarrow> assembly" where
  \<comment> \<open>the loop body from "Extract name from parenthesis" on\<close>
  "processLumia entry comment catMatch text st =
     (case nameMatch comment of
        None \<Rightarrow> st
      | Some nm \<Rightarrow>
          (aggregate (trim nm) (determineType entry comment catMatch text) text (fst st), snd st))"

definition loomCategoryOf :: "string option \<Rightarrow> string option" where
  \<comment> \<open>\<open>category\<close> when the category pattern matched and its trimmed capture is one of
      the three Loom labels\<close>
  "loomCategoryOf catMatch =
     (case catMatch of
        Some cat \<Rightarrow> if isLoomCategory (trim cat) then Some (trim cat) else None
      | None \<Rightarrow> None)"

definition processEntry :: "jsval \<Rightarrow> assembly \<Rightarrow> error + assembly" where
  \<comment> \<open>one turn of the loop over the entries; \<open>continue\<close> leaves the state as it is.
      Reading a property of \<open>null\<close> and calling \<open>trim\<close> on a comment that is not a
      string raise a TypeError.\<close>
  "processEntry entry st =
     (if nullish entry then Inl TypeError
      else (case getProp entry ''content'' of
              JStr text \<Rightarrow>
                if text = [] then Inr st
                else (case js_or (getProp entry ''comment'') (JStr []) of
                        JStr c \<Rightarrow>
                          (let comment = trim c;
                               catMatch = categoryMatch comment
                           in case loomCategoryOf catMatch of
                                Some category \<Rightarrow>
                                  (case loomNameMatch comment of
                                     None \<Rightarrow> Inr st
                                   | Some ln \<Rightarrow>
                                       Inr (fst st,
                                            snd st @ [newLoom (trim ln) (trim text) category]))
                              | None \<Rightarrow> Inr (processLumia entry comment catMatch text st))
                      | _ \<Rightarrow> Inl TypeError)
            | _ \<Rightarrow> Inr st))"

fun processEntries :: "jsval list \<Rightarrow> assembly \<Rightarrow> error + assembly" where
  "processEntries [] st = Inr st"
| "processEntries (e # es) st =
     (case processEntry e st of
        Inl err \<Rightarrow> Inl err
      | Inr st' \<Rightarrow> processEntries es st')"

definition assemble :: "jsval list \<Rightarrow> error + jsval list \<times> jsval list" where
  \<comment> \<open>the loop from empty collections, then \<open>Array.from(lumiaMap.values())\<close>\<close>
  "assemble entries =
     (case processEntries entries ([], []) of
        Inl err \<Rightarrow> Inl err
      | Inr (lumiaMap, loomItems) \<Rightarrow> Inr (map (JObj \<circ> snd) lumiaMap, loomItems))"

definition processWorldBook :: "jsval \<Rightarrow> error + jsval list \<times> jsval list" where
  \<comment> \<open>the result is the pair \<open>(lumiaItems, loomItems)\<close>\<close>
  "processWorldBook data =
     (case data of
        JArr entries \<Rightarrow> assemble entries
      | _ \<Rightarrow>
          if truthy data \<and> truthy (getProp data ''entries'')
          then assemble (objectValues (getProp data ''entries''))
          else Inr ([], []))"

subsection \<open>convertPack\<close>

definition convertLumiaItem :: "jsval \<Rightarrow> jsval" where
  "convertLumiaItem oldItem =
     JObj [(''lumiaName'', js_or (getProp oldItem ''lumiaDefName'') (getProp oldItem ''lumiaName'')),
           (''lumiaDefinition'',
              js_or (js_or (getProp oldItem ''lumiaDef'') (getProp oldItem ''lumiaDefinition'')) JNull),
           (''lumiaPersonality'',
              js_or (js_or (getProp oldItem ''lumia_personality'') (getProp oldItem ''lumiaPersonality'')) JNull),
           (''lumiaBehavior'',
              js_or (js_or (getProp oldItem ''lumia_behavior'') (getProp oldItem ''lumiaBehavior'')) JNull),
           (''avatarUrl'',
              js_or (js_or (getProp oldItem ''lumia_img'') (getProp oldItem ''avatarUrl'')) JNull),
           (''genderIdentity'',
              (if nullish (getProp oldItem ''genderIdentity'') then JNum 0
               else getProp oldItem ''genderIdentity'')),
           (''authorName'',
              js_or (js_or (getProp oldItem ''defAuthor'') (getProp oldItem ''authorName'')) JNull),
           (''version'', JNum 1)]"

definition convertLoomItem :: "jsval \<Rightarrow> jsval" where
  "convertLoomItem oldItem =
     JObj [(''loomName'', getProp oldItem ''loomName''),
           (''loomContent'', getProp oldItem ''loomContent''),
           (''loomCategory'', getProp oldItem ''loomCategory''),
           (''authorName'', js_or (getProp oldItem ''authorName'') JNull),
           (''version'', JNum 1)]"

fun convertItems :: "jsval list \<Rightarrow> jsval list \<times> jsval list \<Rightarrow> error + jsval list \<times> jsval list" where
  \<comment> \<open>the loop over \<open>inputData.items\<close>; an item \<open>null\<close> raises a TypeError\<close>
  "convertItems [] acc = Inr acc"
| "convertItems (item # items) acc =
     (if nullish item then Inl TypeError
      else if truthy (js_or (getProp item ''lumiaDefName'') (getProp item ''lumiaName''))
      then convertItems items (fst acc @ [convertLumiaItem item], snd acc)
      else if truthy (getProp item ''loomCategory'')
      then convertItems items (fst acc, snd acc @ [convertLoomItem item])
      else convertItems items acc)"

definition newPack :: "jsval \<Rightarrow> jsval \<Rightarrow> jsval \<Rightarrow> jsval \<Rightarrow> jsval list \<Rightarrow> jsval list \<Rightarrow> jsval" where
  "newPack packName packAuthor coverUrl packExtras lumiaItems loomItems =
     JObj [(''packName'', packName),
           (''packAuthor'', packAuthor),
           (''coverUrl'', coverUrl),
           (''version'', JNum 1),
           (''packExtras'', packExtras),
           (''lumiaItems'', JArr lumiaItems),
           (''loomItems'', JArr loomItems)]"

definition convertPack :: "jsval \<Rightarrow> string \<Rightarrow> error + jsval" where
  \<comment> \<open>\<open>throw new Error('Unknown input format')\<close> is \<open>Inl UnknownInputFormat\<close>; reading
      \<open>inputData.lumiaItems\<close> on \<open>null\<close> is \<open>Inl TypeError\<close>\<close>
  "convertPack inputData sourceName =
     (if nullish inputData then Inl TypeError
      else if truthy (getProp inputData ''lumiaItems'') \<or> truthy (getProp inputData ''loomItems'')
      then Inr inputData
      else if truthy (getProp inputData ''entries'') \<or> isArray inputData
      then (case processWorldBook inputData of
              Inl err \<Rightarrow> Inl err
            | Inr (lumiaItems, loomItems) \<Rightarrow>
                Inr (newPack (JStr sourceName) JNull JNull (JArr []) lumiaItems loomItems))
      else (case getProp inputData ''items'' of
              JArr items \<Rightarrow>
                (case convertItems items ([], []) of
                   Inl err \<Rightarrow> Inl err
                 | Inr (lumiaItems, loomItems) \<Rightarrow>
                     Inr (newPack
                            (js_or (js_or (getProp inputData ''name'') (getProp inputData ''packName''))
                               (JStr sourceName))
                            (js_or (js_or (getProp inputData ''author'') (getProp inputData ''packAuthor''))
                               JNull)
                            (js_or (getProp inputData ''coverUrl'') JNull)
                            (js_or (getProp inputData ''packExtras'') (JArr []))
                            lumiaItems loomItems))
            | _ \<Rightarrow> Inl UnknownInputFormat))"

section \<open>The extension: the flat library and its migration to packs\<close>

text \<open>
  The module that holds \<open>migrateSettings\<close> has its own, older \<open>extractMetadata\<close> and
  \<open>processWorldBook\<close>; they build the items of the flat library (\<open>lumiaDefName\<close>,
  \<open>lumia_img\<close>, ...) and are written here with the suffix \<open>_ext\<close>.
\<close>

definition extractMetadata_ext :: "string \<Rightarrow> metadata" where
  "extractMetadata_ext c =
     (let imgMatch = lazyTagMatch ''[lumia_img='' c;
          (image, cleanContent) =
            (case imgMatch of
               Some cap \<Rightarrow> (Some (trim cap), trim (removeFirst (tagText ''[lumia_img='' cap) c))
             | None \<Rightarrow> (None, c));
          authMatch = lazyTagMatch ''[lumia_author='' c;
          (author, cleanContent) =
            (case authMatch of
               Some cap \<Rightarrow>
                 (Some (trim cap), trim (removeFirst (tagText ''[lumia_author='' cap) cleanContent))
             | None \<Rightarrow> (None, cleanContent))
      in \<lparr>image = image, author = author, content = cleanContent\<rparr>)"

definition newLumia_ext :: "string \<Rightarrow> object" where
  "newLumia_ext name =
          [(''lumiaDefName'', JStr name),
           (''lumia_img'', JNull),
           (''lumia_personality'', JNull),
           (''lumia_behavior'', JNull),
           (''lumiaDef'', JNull),
           (''defAuthor'', JNull)]"

definition determineType_ext :: "jsval \<Rightarrow> string \<Rightarrow> entryType option" where
  "determineType_ext entry comment =
     (let commentLower = toLowerCase comment;
          outletName = getProp entry ''outletName''
      in if outletName = JStr ''Lumia_Description'' \<or> strIncludes commentLower ''definition''
         then Some Definition
         else if outletName = JStr ''Lumia_Behavior'' \<or> strIncludes commentLower ''behavior''
         then Some Behavior
         else if outletName = JStr ''Lumia_Personality'' \<or> strIncludes commentLower ''personality''
         then Some Personality
         else None)"

definition applyType_ext :: "entryType option \<Rightarrow> string \<Rightarrow> object \<Rightarrow> object" where
  "applyType_ext ty text lumia =
     (case ty of
        Some Definition \<Rightarrow>
          (let meta = extractMetadata_ext text;
               l1 = setProp lumia ''lumiaDef'' (JStr (content meta));
               l2 = (case image meta of
                       Some i \<Rightarrow> if i \<noteq> [] then setProp l1 ''lumia_img'' (JStr i) else l1
                     | None \<Rightarrow> l1)
           in (case author meta of
                 Some a \<Rightarrow> if a \<noteq> [] then setProp l2 ''defAuthor'' (JStr a) else l2
               | None \<Rightarrow> l2))
      | Some Behavior \<Rightarrow> setProp lumia ''lumia_behavior'' (JStr text)
      | Some Personality \<Rightarrow>
          (let behaviorMatch = markerMatch ''{{setvar::lumia_behavior_'' text;
               personalityMatch = markerMatch ''{{setglobalvar::lumia_personality_'' text;
               l1 = (case behaviorMatch of
                       Some b \<Rightarrow>
                         if \<not> truthy (getProp (JObj lumia) ''lumia_behavior'')
                         then setProp lumia ''lumia_behavior'' (JStr (trim b)) else lumia
                     | None \<Rightarrow> lumia)
           in (case personalityMatch of
                 Some p \<Rightarrow> setProp l1 ''lumia_personality'' (JStr (trim p))
               | None \<Rightarrow> setProp l1 ''lumia_personality'' (JStr text)))
      | None \<Rightarrow> lumia)"

definition processEntry_ext :: "jsval \<Rightarrow> (string \<times> object) list \<Rightarrow> error + (string \<times> object) list" where
  "processEntry_ext entry m =
     (if nullish entry then Inl TypeError
      else (case getProp entry ''content'' of
              JStr text \<Rightarrow>
                if text = [] then Inr m
                else (case js_or (getProp entry ''comment'') (JStr []) of
                        JStr c \<Rightarrow>
                          (let comment = trim c
                           in case nameMatch comment of
                                None \<Rightarrow> Inr m
                              | Some nm \<Rightarrow>
                                  (let name = trim nm;
                                       (lumia, m1) =
                                         (case map_of m name of
                                            Some l \<Rightarrow> (l, m)
                                          | None \<Rightarrow> (newLumia_ext name,
                                                     AList.update name (newLumia_ext name) m));
                                       ty = determineType_ext entry comment
                                   in Inr (AList.update name (applyType_ext ty text lumia) m1)))
                      | _ \<Rightarrow> Inl TypeError)
            | _ \<Rightarrow> Inr m))"

fun processEntries_ext :: "jsval list \<Rightarrow> (string \<times> object) list \<Rightarrow> error + (string \<times> object) list" where
  "processEntries_ext [] m = Inr m"
| "processEntries_ext (e # es) m =
     (case processEntry_ext e m of
        Inl err \<Rightarrow> Inl err
      | Inr m' \<Rightarrow> processEntries_ext es m')"

definition processWorldBook_ext :: "jsval \<Rightarrow> error + jsval list" where
  "processWorldBook_ext data =
     (let entries = (case data of
                       JArr es \<Rightarrow> Some es
                     | _ \<Rightarrow> if truthy data \<and> truthy (getProp data ''entries'')
                            then Some (objectValues (getProp data ''entries'')) else None)
      in case entries of
           None \<Rightarrow> Inr []
         | Some es \<Rightarrow>
             (case processEntries_ext es [] of
                Inl err \<Rightarrow> Inl err
              | Inr m \<Rightarrow> Inr (map (JObj \<circ> snd) m)))"

subsection \<open>migrateSettings\<close>

text \<open>
  The settings object. A field has the type the code takes for granted where it does not
  look: \<open>lumiaLibrary\<close> is an array when it is there (\<open>None\<close> when the key is absent; an
  array, empty or not, is truthy), \<open>packs\<close> is an object (\<open>None\<close> when it is
  \<open>undefined\<close> or \<open>null\<close>). Where the code tests the value at run time
  (\<open>typeof ... === 'number'\<close>, \<open>Array.isArray\<close>, truthiness) the field is any value, and
  \<open>JUndefined\<close> stands for an absent key, which is what \<open>delete\<close> leaves.
\<close>

record settings =
  packs :: "(string \<times> jsval) list option"
  selectedDefinition :: jsval
  selectedBehaviors :: jsval
  selectedPersonalities :: jsval
  lumiaOOCInterval :: jsval
  lumiaLibrary :: "jsval list option"
  worldBookData :: jsval
  worldBookUrl :: jsval

fun decimal :: "nat \<Rightarrow> string" where
  \<comment> \<open>the decimal numeral of a natural number\<close>
  "decimal n =
     (if n < 10 then [char_of (48 + n)]
      else decimal (n div 10) @ [char_of (48 + n mod 10)])"

fun keyString :: "jsval \<Rightarrow> error + string" and joinKeys :: "jsval list \<Rightarrow> error + string" where
  \<comment> \<open>the property key a value stands for in \<open>items[idx]\<close>. An array is its elements
      joined by commas, \<open>null\<close> and \<open>undefined\<close> among them giving nothing. An object
      is \<open>[object Object]\<close> through the inherited \<open>toString\<close>; an object with a
      property \<open>toString\<close> of its own, which parsed JSON cannot make callable, has no
      primitive value, and the conversion raises a TypeError.\<close>
  "keyString JUndefined = Inr ''undefined''"
| "keyString JNull = Inr ''null''"
| "keyString (JBool b) = Inr (if b then ''true'' else ''false'')"
| "keyString (JNum n) =
     Inr (if n < 0 then CHR ''-'' # decimal (nat (- n)) else decimal (nat n))"
| "keyString (JStr s) = Inr s"
| "keyString (JArr xs) = joinKeys xs"
| "keyString (JObj kvs) =
     (if map_of kvs ''toString'' \<noteq> None then Inl TypeError else Inr ''[object Object]'')"
| "joinKeys [] = Inr []"
| "joinKeys (x # xs) =
     (case (if nullish x then Inr [] else keyString x) of
        Inl err \<Rightarrow> Inl err
      | Inr k \<Rightarrow>
          if xs = [] then Inr k
          else (case joinKeys xs of
                  Inl err \<Rightarrow> Inl err
                | Inr r \<Rightarrow> Inr (k @ '','' @ r)))"

definition elementAt :: "jsval list \<Rightarrow> jsval \<Rightarrow> error + jsval" where
  \<comment> \<open>\<open>items[idx]\<close> as far as \<open>getName\<close> can tell: the element when the key of \<open>idx\<close>
      is the numeral of a position of the array, \<open>undefined\<close> otherwise (any other key
      is \<open>length\<close>, an inherited method or nothing, and none of these has a
      \<open>lumiaDefName\<close>); a TypeError when \<open>idx\<close> has no key\<close>
  "elementAt items idx =
     (case idx of
        JNum n \<Rightarrow> Inr (if 0 \<le> n \<and> nat n < length items then items ! nat n else JUndefined)
      | _ \<Rightarrow>
          (case keyString idx of
             Inl err \<Rightarrow> Inl err
           | Inr key \<Rightarrow>
               Inr (case find (\<lambda>i. decimal i = key) [0..<length items] of
                      Some i \<Rightarrow> items ! i
                    | None \<Rightarrow> JUndefined)))"

definition getName :: "jsval list \<Rightarrow> jsval \<Rightarrow> error + jsval" where
  \<comment> \<open>\<open>items[idx]?.lumiaDefName\<close>\<close>
  "getName items idx =
     (case elementAt items idx of
        Inl err \<Rightarrow> Inl err
      | Inr item \<Rightarrow> Inr (if nullish item then JUndefined else getProp item ''lumiaDefName''))"

definition legacyPackName :: string where
  "legacyPackName = ''Default (Legacy)''"

definition selection :: "jsval \<Rightarrow> jsval" where
  \<comment> \<open>\<open>{ packName, itemName: name }\<close>\<close>
  "selection name = JObj [(''packName'', JStr legacyPackName), (''itemName'', name)]"

definition migrateIndex :: "jsval list \<Rightarrow> jsval \<Rightarrow> error + jsval" where
  \<comment> \<open>\<open>name ? { packName, itemName: name } : null\<close> for \<open>name = getName(idx)\<close>\<close>
  "migrateIndex items idx =
     (case getName items idx of
        Inl err \<Rightarrow> Inl err
      | Inr name \<Rightarrow> Inr (if truthy name then selection name else JNull))"

fun isNumber :: "jsval \<Rightarrow> bool" where
  \<comment> \<open>\<open>typeof v === 'number'\<close>\<close>
  "isNumber (JNum n) = True"
| "isNumber v = False"

definition migrateDefinition :: "jsval list \<Rightarrow> jsval \<Rightarrow> error + jsval" where
  \<comment> \<open>the new \<open>selectedDefinition\<close>\<close>
  "migrateDefinition items sel = (if isNumber sel then migrateIndex items sel else Inr sel)"

fun mapIndices :: "jsval list \<Rightarrow> jsval list \<Rightarrow> error + jsval list" where
  \<comment> \<open>\<open>.map(idx => ...)\<close> over a selection: the first element that raises ends it\<close>
  "mapIndices items [] = Inr []"
| "mapIndices items (idx # rest) =
     (case migrateIndex items idx of
        Inl err \<Rightarrow> Inl err
      | Inr v \<Rightarrow>
          (case mapIndices items rest of
             Inl err \<Rightarrow> Inl err
           | Inr vs \<Rightarrow> Inr (v # vs)))"

definition migrateMulti :: "jsval list \<Rightarrow> jsval \<Rightarrow> error + jsval" where
  \<comment> \<open>the new \<open>selectedBehaviors\<close> and \<open>selectedPersonalities\<close>: an array that is not
      empty and whose first element is a number is mapped and filtered, anything
      else becomes the empty array\<close>
  "migrateMulti items sel =
     (case sel of
        JArr xs \<Rightarrow>
          if xs \<noteq> [] \<and> isNumber (hd xs)
          then (case mapIndices items xs of
                  Inl err \<Rightarrow> Inl err
                | Inr vs \<Rightarrow> Inr (JArr (filter truthy vs)))
          else Inr (JArr [])
      | _ \<Rightarrow> Inr (JArr []))"

definition ensureDefaults :: "settings \<Rightarrow> settings" where
  "ensureDefaults s =
     s\<lparr>packs := (case packs s of None \<Rightarrow> Some [] | Some p \<Rightarrow> Some p),
       selectedBehaviors :=
         (if \<not> truthy (selectedBehaviors s) then JArr [] else selectedBehaviors s),
       selectedPersonalities :=
         (if \<not> truthy (selectedPersonalities s) then JArr [] else selectedPersonalities s),
       lumiaOOCInterval :=
         (if lumiaOOCInterval s = JUndefined then JNull else lumiaOOCInterval s)\<rparr>"

definition legacyPresent :: "settings \<Rightarrow> bool" where
  \<comment> \<open>\<open>settings.lumiaLibrary || settings.worldBookData\<close>\<close>
  "legacyPresent s = (lumiaLibrary s \<noteq> None \<or> truthy (worldBookData s))"

definition deriveItems :: "settings \<Rightarrow> error + jsval list" where
  \<comment> \<open>\<open>items\<close>: the flat library, or what the raw payload gives when the library is
      empty and the payload is there\<close>
  "deriveItems s =
     (let legacyItems = (case lumiaLibrary s of Some l \<Rightarrow> l | None \<Rightarrow> [])
      in if legacyItems = [] \<and> truthy (worldBookData s)
         then processWorldBook_ext (worldBookData s)
         else Inr legacyItems)"

definition migrateSettings :: "settings \<Rightarrow> error + settings \<times> bool" where
  \<comment> \<open>the settings after the call and the flag \<open>migrated\<close> it returns. A TypeError ends
      the call: \<open>Object.keys\<close> of a \<open>packs\<close> that is \<open>undefined\<close> or \<open>null\<close>, an
      entry of the payload that cannot be read, or an element of a selection that has
      no property key.\<close>
  "migrateSettings s =
     (if legacyPresent s
      then (case packs s of
              None \<Rightarrow> Inl TypeError
            | Some ps \<Rightarrow>
                if ps = []
                then (case deriveItems s of
                        Inl err \<Rightarrow> Inl err
                      | Inr items \<Rightarrow>
                          if items \<noteq> []
                          then (case migrateDefinition items (selectedDefinition s) of
                                  Inl err \<Rightarrow> Inl err
                                | Inr definition' \<Rightarrow>
                            (case migrateMulti items (selectedBehaviors s) of
                               Inl err \<Rightarrow> Inl err
                             | Inr behaviors' \<Rightarrow>
                            (case migrateMulti items (selectedPersonalities s) of
                               Inl err \<Rightarrow> Inl err
                             | Inr personalities' \<Rightarrow>
                                 Inr (ensureDefaults
                                   (s\<lparr>packs := Some [(legacyPackName,
                                          JObj [(''name'', JStr legacyPackName),
                                                (''items'', JArr items),
                                                (''url'', js_or (worldBookUrl s) (JStr ''Legacy''))])],
                                      selectedDefinition := definition',
                                      selectedBehaviors := behaviors',
                                      selectedPersonalities := personalities',
                                      lumiaLibrary := None,
                                      worldBookData := JUndefined,
                                      worldBookUrl := JUndefined\<rparr>), True))))
                          else Inr (ensureDefaults s, False))
                else Inr (ensureDefaults s, False))
      else Inr (ensureDefaults s, False))"

section \<open>Notions in which the properties are stated\<close>

subsection \<open>The rule for one legacy index, in the words of the specification\<close>

definition specSelection :: "jsval list \<Rightarrow> int \<Rightarrow> jsval" where
  \<comment> \<open>index \<open>i\<close> becomes the pair of the legacy label and the name of the item at
      position \<open>i\<close> when \<open>i\<close> is in range and that item has a name, and \<open>null\<close>
      otherwise\<close>
  "specSelection items i =
     (if 0 \<le> i \<and> nat i < length items \<and> \<not> nullish (items ! nat i)
         \<and> truthy (getProp (items ! nat i) ''lumiaDefName'')
      then JObj [(''packName'', JStr ''Default (Legacy)''),
                 (''itemName'', getProp (items ! nat i) ''lumiaDefName'')]
      else JNull)"

subsection \<open>What one entry amounts to\<close>

text \<open>
  The tests of the loop body of \<open>processWorldBook\<close>, in their order, without the writes:
  an entry is dropped, or gives a Loom item, or brings a name, a type (if one is found)
  and its content to the item of that name. \<open>processEntry_classify\<close> below shows that
  the loop body does exactly what this says.
\<close>

datatype fragment =
    Dropped
  | LoomFragment jsval
  | LumiaFragment string "entryType option" string

definition classify :: "jsval \<Rightarrow> error + fragment" where
  "classify entry =
     (if nullish entry then Inl TypeError
      else (case getProp entry ''content'' of
              JStr text \<Rightarrow>
                if text = [] then Inr Dropped
                else (case js_or (getProp entry ''comment'') (JStr []) of
                        JStr c \<Rightarrow>
                          (let comment = trim c;
                               catMatch = categoryMatch comment
                           in case loomCategoryOf catMatch of
                                Some category \<Rightarrow>
                                  (case loomNameMatch comment of
                                     None \<Rightarrow> Inr Dropped
                                   | Some ln \<Rightarrow>
                                       Inr (LoomFragment (newLoom (trim ln) (trim text) category)))
                              | None \<Rightarrow>
                                  (case nameMatch comment of
                                     None \<Rightarrow> Inr Dropped
                                   | Some nm \<Rightarrow>
                                       Inr (LumiaFragment (trim nm)
                                              (determineType entry comment catMatch text) text)))
                      | _ \<Rightarrow> Inl TypeError)
            | _ \<Rightarrow> Inr Dropped))"


definition isRawEntry :: "jsval \<Rightarrow> bool" where
  \<comment> \<open>the entries of the data model: objects whose comment, when there is one, is text
      (or a falsy value, which \<open>entry.comment || ''\<close> replaces by the empty text)\<close>
  "isRawEntry e =
     (case e of
        JObj props \<Rightarrow>
          (case map_of props ''comment'' of
             None \<Rightarrow> True
           | Some (JStr c) \<Rightarrow> True
           | Some v \<Rightarrow> \<not> truthy v)
      | _ \<Rightarrow> False)"

subsection \<open>Occurrences of a tag\<close>

text \<open>
  What it means for a text to hold a tag, said without the search: the tag with key
  \<open>key\<close> (\<open>[lumia_img=\<close> or \<open>[lumia_author=\<close>) and capture \<open>cap\<close> is the key, the
  capture, which is not empty and has no closing bracket, and a closing bracket.
\<close>

definition tagOccursAt :: "string \<Rightarrow> string \<Rightarrow> string \<Rightarrow> string \<Rightarrow> string \<Rightarrow> bool" where
  \<comment> \<open>\<open>c\<close> is \<open>pre\<close>, a tag with capture \<open>cap\<close>, and \<open>post\<close>\<close>
  "tagOccursAt key c pre cap post =
     (c = pre @ tagText key cap @ post \<and> cap \<noteq> [] \<and> CHR '']'' \<notin> set cap)"

definition noTag :: "string \<Rightarrow> string \<Rightarrow> bool" where
  "noTag key c = (\<forall>pre cap post. \<not> tagOccursAt key c pre cap post)"

definition firstTag :: "string \<Rightarrow> string \<Rightarrow> string \<Rightarrow> string \<Rightarrow> string \<Rightarrow> bool" where
  \<comment> \<open>the occurrence after \<open>pre\<close> is the first one: no tag of the key starts earlier\<close>
  "firstTag key c pre cap post =
     (tagOccursAt key c pre cap post \<and>
      (\<forall>pre' cap' post'. tagOccursAt key c pre' cap' post' \<longrightarrow> length pre \<le> length pre'))"

fun bracketTagIndex :: "string \<Rightarrow> string \<Rightarrow> nat option" where
  \<comment> \<open>the \<open>index\<close> of the match that \<open>bracketTagMatch\<close> finds: where it starts\<close>
  "bracketTagIndex key [] = (case bracketTagAt key [] of Some cap \<Rightarrow> Some 0 | None \<Rightarrow> None)"
| "bracketTagIndex key (c # cs) =
     (case bracketTagAt key (c # cs) of
        Some cap \<Rightarrow> Some 0
      | None \<Rightarrow> map_option Suc (bracketTagIndex key cs))"

subsection \<open>A keyword in a comment\<close>

definition hasKeyword :: "string \<Rightarrow> string \<Rightarrow> bool" where
  \<comment> \<open>the comment contains the keyword somewhere, whatever the case of its letters\<close>
  "hasKeyword k comment = (\<exists>a b. toLowerCase comment = a @ k @ b)"

section \<open>Examples\<close>

subsection \<open>Settings\<close>

definition libraryItem :: "string \<Rightarrow> jsval" where
  "libraryItem name = JObj [(''lumiaDefName'', JStr name), (''lumiaDef'', JStr ''text'')]"

definition fiveItems :: "jsval list" where
  \<comment> \<open>a flat library of five items, the fourth without a name\<close>
  "fiveItems = [libraryItem ''Aria'', libraryItem ''Bo'', libraryItem ''Cyd'',
                JObj [(''lumiaDef'', JStr ''text'')], libraryItem ''Eve'']"

definition legacySettings :: settings where
  \<comment> \<open>settings of the first version: indices into the flat library\<close>
  "legacySettings =
     \<lparr>packs = Some [],
      selectedDefinition = JNum 2,
      selectedBehaviors = JArr [JNum 0, JNum 99, JNum 3, JNum 4],
      selectedPersonalities = JArr [JNum 1],
      lumiaOOCInterval = JNull,
      lumiaLibrary = Some fiveItems,
      worldBookData = JUndefined,
      worldBookUrl = JUndefined\<rparr>"

definition mixedSettings :: settings where
  \<comment> \<open>a flat library next to selections that already name their items\<close>
  "mixedSettings =
     \<lparr>packs = Some [],
      selectedDefinition = JNull,
      selectedBehaviors = JArr [JObj [(''packName'', JStr ''Default (Legacy)''), (''itemName'', JStr ''Bo'')]],
      selectedPersonalities = JArr [],
      lumiaOOCInterval = JNull,
      lumiaLibrary = Some fiveItems,
      worldBookData = JUndefined,
      worldBookUrl = JUndefined\<rparr>"

definition staleSettings :: settings where
  \<comment> \<open>legacy keys from which no item can be derived: an empty library and a payload
      without entries\<close>
  "staleSettings =
     \<lparr>packs = Some [],
      selectedDefinition = JNum 0,
      selectedBehaviors = JArr [],
      selectedPersonalities = JArr [],
      lumiaOOCInterval = JNull,
      lumiaLibrary = Some [],
      worldBookData = JObj [],
      worldBookUrl = JStr ''http://x/book.json''\<rparr>"

definition legacyRef :: "string \<Rightarrow> jsval" where
  \<comment> \<open>a selection that names an item of the legacy pack\<close>
  "legacyRef name = JObj [(''packName'', JStr ''Default (Legacy)''), (''itemName'', JStr name)]"

definition emptyLibrarySettings :: settings where
  \<comment> \<open>an empty flat library and no payload, next to selections of the first version
      and a selection that names its item\<close>
  "emptyLibrarySettings =
     \<lparr>packs = Some [],
      selectedDefinition = JNum 0,
      selectedBehaviors = JArr [JNum 0],
      selectedPersonalities = JArr [legacyRef ''Bo''],
      lumiaOOCInterval = JNull,
      lumiaLibrary = Some [],
      worldBookData = JUndefined,
      worldBookUrl = JUndefined\<rparr>"

subsection \<open>Entries and payloads\<close>

definition entry :: "string \<Rightarrow> string \<Rightarrow> jsval" where
  \<comment> \<open>an entry with a comment and a content\<close>
  "entry c t = JObj [(''comment'', JStr c), (''content'', JStr t)]"

definition outletEntry :: "string \<Rightarrow> string \<Rightarrow> string \<Rightarrow> jsval" where
  \<comment> \<open>an entry with an outlet name as well\<close>
  "outletEntry c t outlet =
     JObj [(''comment'', JStr c), (''content'', JStr t), (''outletName'', JStr outlet)]"

definition kindEntry :: jsval where
  \<comment> \<open>a behavior entry whose content has white space around it\<close>
  "kindEntry = entry ''Behavior (Bo)'' ''  Be kind.  ''"

definition labelledEntry :: jsval where
  \<comment> \<open>an entry of the behavior outlet whose comment says "definition"\<close>
  "labelledEntry = outletEntry ''definition (Aria)'' ''Calm.'' ''Lumia_Behavior''"

definition readingList :: jsval where
  \<comment> \<open>an entry whose comment has no name in parentheses\<close>
  "readingList = entry ''Reading list'' ''Nothing to see.''"





definition emptyPack :: jsval where
  \<comment> \<open>a pack of the new format with no item\<close>
  "emptyPack =
     JObj [(''packName'', JStr ''Empty''), (''packAuthor'', JNull), (''coverUrl'', JNull),
           (''version'', JNum 1), (''packExtras'', JArr []),
           (''lumiaItems'', JArr []), (''loomItems'', JArr [])]"

definition gothicBook :: jsval where
  \<comment> \<open>a World Book with one Loom entry\<close>
  "gothicBook =
     JObj [(''entries'',
            JObj [(''0'', entry ''Narrative Style (Gothic)'' ''Write in a dark tone.'')])]"

definition gothicPack :: jsval where
  "gothicPack =
     JObj [(''packName'', JStr ''Book''), (''packAuthor'', JNull), (''coverUrl'', JNull),
           (''version'', JNum 1), (''packExtras'', JArr []),
           (''lumiaItems'', JArr []),
           (''loomItems'',
            JArr [JObj [(''loomName'', JStr ''Gothic''),
                        (''loomContent'', JStr ''Write in a dark tone.''),
                        (''loomCategory'', JStr ''Narrative Style''),
                        (''authorName'', JNull), (''version'', JNum 1)]])]"

definition nullItemsPayload :: jsval where
  \<comment> \<open>a payload whose \<open>lumiaItems\<close> and \<open>loomItems\<close> are there and \<open>null\<close>\<close>
  "nullItemsPayload =
     JObj [(''packName'', JStr ''P''), (''lumiaItems'', JNull), (''loomItems'', JNull)]"

subsection \<open>Texts with tags\<close>

definition librarianText :: string where
  "librarianText = ''A quiet librarian. [lumia_img=http://x/img.png][lumia_author=Bob]''"

definition twoImagesText :: string where
  "twoImagesText = ''A[lumia_img=x]B[lumia_img=y]''"

definition nestedTagsText :: string where
  \<comment> \<open>an image tag inside the capture of an author tag\<close>
  "nestedTagsText = ''[lumia_author=B[lumia_img=x]ob]''"

definition splitTagText :: string where
  \<comment> \<open>an image tag that splits the text of an author tag, and an author tag at the end\<close>
  "splitTagText = ''[lumia_[lumia_img=x]author=Bob]AAA[lumia_author=Bob]''"

section \<open>Properties of the migration\<close>

subsection \<open>The steps of the migration\<close>

lemma migrateIndex_spec: "migrateIndex items (JNum i) = Inr (specSelection items i)"
  by (simp add: migrateIndex_def getName_def elementAt_def specSelection_def selection_def
      legacyPackName_def)

lemma filter_truthy_spec:
  "filter truthy (map (specSelection items) js) =
   filter (\<lambda>v. v \<noteq> JNull) (map (specSelection items) js)"
  by (induction js) (auto simp: specSelection_def)

lemma mapIndices_numbers: "mapIndices items (map JNum js) = Inr (map (specSelection items) js)"
  by (induction js) (simp_all add: migrateIndex_spec)

lemma migrateMulti_indices:
  assumes "js \<noteq> []"
  shows "migrateMulti items (JArr (map JNum js)) =
         Inr (JArr (filter (\<lambda>v. v \<noteq> JNull) (map (specSelection items) js)))"
proof -
  have "migrateMulti items (JArr (map JNum js)) =
        Inr (JArr (filter truthy (map (specSelection items) js)))"
  proof -
    have "map JNum js \<noteq> [] \<and> isNumber (hd (map JNum js))"
      using assms by (cases js) simp_all
    then show ?thesis
      by (simp add: migrateMulti_def mapIndices_numbers)
  qed
  then show ?thesis
    by (simp only: filter_truthy_spec)
qed

lemma migrateMulti_not_index:
  assumes "sel = JArr xs" and "xs = [] \<or> \<not> isNumber (hd xs)"
  shows "migrateMulti items sel = Inr (JArr [])"
  using assms by (auto simp: migrateMulti_def)

lemma migrateMulti_truthy: "migrateMulti items sel = Inr v \<Longrightarrow> truthy v"
  by (auto simp: migrateMulti_def split: jsval.splits if_splits sum.splits)

lemma migrateDefinition_Inr:
  "migrateDefinition items sel =
     Inr (case sel of JNum i \<Rightarrow> specSelection items i | _ \<Rightarrow> sel)"
  by (cases sel) (simp_all add: migrateDefinition_def migrateIndex_spec)

lemma migrateSettings_run:
  assumes "legacyPresent s" and "packs s = Some []" and "deriveItems s = Inr items"
    and "items \<noteq> []"
  shows "migrateSettings s =
           (case migrateMulti items (selectedBehaviors s) of
              Inl err \<Rightarrow> Inl err
            | Inr b \<Rightarrow>
                (case migrateMulti items (selectedPersonalities s) of
                   Inl err \<Rightarrow> Inl err
                 | Inr p \<Rightarrow>
                     Inr (ensureDefaults
                            (s\<lparr>packs := Some [(legacyPackName,
                                   JObj [(''name'', JStr legacyPackName),
                                         (''items'', JArr items),
                                         (''url'', js_or (worldBookUrl s) (JStr ''Legacy''))])],
                               selectedDefinition :=
                                 (case selectedDefinition s of
                                    JNum i \<Rightarrow> specSelection items i
                                  | _ \<Rightarrow> selectedDefinition s),
                               selectedBehaviors := b,
                               selectedPersonalities := p,
                               lumiaLibrary := None,
                               worldBookData := JUndefined,
                               worldBookUrl := JUndefined\<rparr>), True)))"
  using assms by (simp add: migrateSettings_def migrateDefinition_Inr split: sum.splits)

lemma migrateSettings_no_items:
  assumes "legacyPresent s" and "packs s = Some []" and "deriveItems s = Inr []"
  shows "migrateSettings s = Inr (ensureDefaults s, False)"
  using assms by (simp add: migrateSettings_def)

lemma migrateSettings_returned:
  assumes "legacyPresent s" and "packs s = Some []" and "deriveItems s = Inr items"
    and "items \<noteq> []" and "migrateSettings s = Inr (s', m)"
  shows "\<exists>b p. migrateMulti items (selectedBehaviors s) = Inr b
           \<and> migrateMulti items (selectedPersonalities s) = Inr p
           \<and> m
           \<and> s' = s\<lparr>packs := Some [(legacyPackName,
                          JObj [(''name'', JStr legacyPackName),
                                (''items'', JArr items),
                                (''url'', js_or (worldBookUrl s) (JStr ''Legacy''))])],
                      selectedDefinition :=
                        (case selectedDefinition s of
                           JNum i \<Rightarrow> specSelection items i
                         | _ \<Rightarrow> selectedDefinition s),
                      selectedBehaviors := b,
                      selectedPersonalities := p,
                      lumiaLibrary := None,
                      worldBookData := JUndefined,
                      worldBookUrl := JUndefined,
                      lumiaOOCInterval :=
                        (if lumiaOOCInterval s = JUndefined then JNull else lumiaOOCInterval s)\<rparr>"
proof -
  from assms(5) obtain b p where b: "migrateMulti items (selectedBehaviors s) = Inr b"
    and p: "migrateMulti items (selectedPersonalities s) = Inr p"
    unfolding migrateSettings_run [OF assms(1-4)]
    by (auto split: sum.splits)
  have "truthy b" and "truthy p"
    using b p by (auto dest: migrateMulti_truthy)
  with assms(5) b p show ?thesis
    unfolding migrateSettings_run [OF assms(1-4)]
    by (auto simp: ensureDefaults_def)
qed

lemma migrateSettings_derived:
  assumes "legacyPresent s" and "packs s = Some []" and "migrateSettings s = Inr (s', m)"
  shows "\<exists>items. deriveItems s = Inr items"
  using assms by (cases "deriveItems s") (simp_all add: migrateSettings_def)

lemma deriveItems_legacySettings: "deriveItems legacySettings = Inr fiveItems"
  by (simp add: deriveItems_def legacySettings_def fiveItems_def)

lemma deriveItems_mixedSettings: "deriveItems mixedSettings = Inr fiveItems"
  by (simp add: deriveItems_def mixedSettings_def fiveItems_def)

lemma deriveItems_staleSettings: "deriveItems staleSettings = Inr []"
  by (simp add: deriveItems_def staleSettings_def processWorldBook_ext_def)

lemma specSelection_fiveItems:
  "specSelection fiveItems 0 = legacyRef ''Aria''" "specSelection fiveItems 1 = legacyRef ''Bo''"
  "specSelection fiveItems 2 = legacyRef ''Cyd''" "specSelection fiveItems 3 = JNull"
  "specSelection fiveItems 4 = legacyRef ''Eve''" "specSelection fiveItems 99 = JNull"
  by (simp_all add: specSelection_def fiveItems_def libraryItem_def legacyRef_def)

lemma legacyRef_not_null: "legacyRef n \<noteq> JNull"
  by (simp add: legacyRef_def)

lemma deriveItems_emptyLibrarySettings: "deriveItems emptyLibrarySettings = Inr []"
  by (simp add: deriveItems_def emptyLibrarySettings_def)

lemma ensureDefaults_selections:
  "selectedDefinition (ensureDefaults s) = selectedDefinition s"
  "truthy (selectedBehaviors s) \<Longrightarrow> selectedBehaviors (ensureDefaults s) = selectedBehaviors s"
  "truthy (selectedPersonalities s) \<Longrightarrow>
     selectedPersonalities (ensureDefaults s) = selectedPersonalities s"
  by (simp_all add: ensureDefaults_def)

subsection \<open>The legacy keys\<close>

text \<open>
  C1, as the code has it. Let the guard fire (a legacy key is present and the packs
  mapping is empty). Whenever the call returns, items were derived, and: if there is at
  least one, the flag is set and the three legacy keys (the flat library, the raw
  payload, the source URL) are gone from the settings; if there is none, the flag is
  not set, no pack is made and the three keys are as they were. The call does return:
  always when no item is derived, and with at least one item whenever the migration of
  the two multi-selections raises nothing.
\<close>

theorem migrateSettings_removes_legacy_keys:
  assumes "legacyPresent s" and "packs s = Some []"
  shows "(\<forall>s' migrated. migrateSettings s = Inr (s', migrated) \<longrightarrow>
            (\<exists>items. deriveItems s = Inr items \<and>
               (items \<noteq> [] \<longrightarrow> migrated \<and> lumiaLibrary s' = None
                   \<and> worldBookData s' = JUndefined \<and> worldBookUrl s' = JUndefined) \<and>
               (items = [] \<longrightarrow> \<not> migrated \<and> packs s' = Some []
                   \<and> lumiaLibrary s' = lumiaLibrary s
                   \<and> worldBookData s' = worldBookData s \<and> worldBookUrl s' = worldBookUrl s)))
         \<and> (deriveItems s = Inr [] \<longrightarrow> migrateSettings s = Inr (ensureDefaults s, False))
         \<and> (\<forall>items b p. deriveItems s = Inr items \<and> items \<noteq> []
                \<and> migrateMulti items (selectedBehaviors s) = Inr b
                \<and> migrateMulti items (selectedPersonalities s) = Inr p \<longrightarrow>
              (\<exists>s'. migrateSettings s = Inr (s', True)))"
proof (intro conjI allI impI)
  fix s' migrated
  assume r: "migrateSettings s = Inr (s', migrated)"
  from migrateSettings_derived [OF assms r] obtain items where d: "deriveItems s = Inr items" ..
  show "\<exists>items. deriveItems s = Inr items \<and>
               (items \<noteq> [] \<longrightarrow> migrated \<and> lumiaLibrary s' = None
                   \<and> worldBookData s' = JUndefined \<and> worldBookUrl s' = JUndefined) \<and>
               (items = [] \<longrightarrow> \<not> migrated \<and> packs s' = Some []
                   \<and> lumiaLibrary s' = lumiaLibrary s
                   \<and> worldBookData s' = worldBookData s \<and> worldBookUrl s' = worldBookUrl s)"
  proof (cases "items = []")
    case True
    with migrateSettings_no_items [OF assms] d r show ?thesis
      by (auto simp: ensureDefaults_def assms(2))
  next
    case False
    from migrateSettings_returned [OF assms d False r] d False show ?thesis
      by auto
  qed
next
  assume "deriveItems s = Inr []"
  with assms show "migrateSettings s = Inr (ensureDefaults s, False)"
    by (rule migrateSettings_no_items)
next
  fix items b p
  assume "deriveItems s = Inr items \<and> items \<noteq> []
          \<and> migrateMulti items (selectedBehaviors s) = Inr b
          \<and> migrateMulti items (selectedPersonalities s) = Inr p"
  then show "\<exists>s'. migrateSettings s = Inr (s', True)"
    using assms by (simp add: migrateSettings_run)
qed

theorem migrateSettings_removes_legacy_keys_witness:
  "legacyPresent legacySettings \<and> packs legacySettings = Some []
   \<and> deriveItems legacySettings = Inr fiveItems \<and> fiveItems \<noteq> []
   \<and> (\<exists>s'. migrateSettings legacySettings = Inr (s', True) \<and> lumiaLibrary s' = None
            \<and> worldBookData s' = JUndefined \<and> worldBookUrl s' = JUndefined)
   \<and> legacyPresent staleSettings \<and> packs staleSettings = Some []
   \<and> deriveItems staleSettings = Inr []
   \<and> (\<exists>s'. migrateSettings staleSettings = Inr (s', False) \<and> packs s' = Some []
            \<and> lumiaLibrary s' = Some [] \<and> worldBookData s' = JObj []
            \<and> worldBookUrl s' = JStr ''http://x/book.json'')"
proof -
  have a: "legacyPresent legacySettings" and b: "packs legacySettings = Some []"
    by (simp_all add: legacyPresent_def legacySettings_def)
  have c: "fiveItems \<noteq> []"
    by (simp add: fiveItems_def)
  have mb: "migrateMulti fiveItems (selectedBehaviors legacySettings) =
              Inr (JArr (filter (\<lambda>v. v \<noteq> JNull) (map (specSelection fiveItems) [0, 99, 3, 4])))"
    using migrateMulti_indices [of "[0, 99, 3, 4]" fiveItems] by (simp add: legacySettings_def)
  have mp: "migrateMulti fiveItems (selectedPersonalities legacySettings) =
              Inr (JArr (filter (\<lambda>v. v \<noteq> JNull) (map (specSelection fiveItems) [1])))"
    using migrateMulti_indices [of "[1]" fiveItems] by (simp add: legacySettings_def)
  note t1 = migrateSettings_removes_legacy_keys [OF a b]
  from t1 deriveItems_legacySettings c mb mp
  obtain s1 where r1: "migrateSettings legacySettings = Inr (s1, True)"
    by blast
  with t1 deriveItems_legacySettings c
  have k1: "lumiaLibrary s1 = None \<and> worldBookData s1 = JUndefined \<and> worldBookUrl s1 = JUndefined"
    by fastforce
  have a2: "legacyPresent staleSettings" and b2: "packs staleSettings = Some []"
    by (simp_all add: legacyPresent_def staleSettings_def)
  note t2 = migrateSettings_removes_legacy_keys [OF a2 b2]
  from t2 deriveItems_staleSettings
  have r2: "migrateSettings staleSettings = Inr (ensureDefaults staleSettings, False)"
    by blast
  with t2 deriveItems_staleSettings
  have k2: "packs (ensureDefaults staleSettings) = Some []
            \<and> lumiaLibrary (ensureDefaults staleSettings) = lumiaLibrary staleSettings
            \<and> worldBookData (ensureDefaults staleSettings) = worldBookData staleSettings
            \<and> worldBookUrl (ensureDefaults staleSettings) = worldBookUrl staleSettings"
    by fastforce
  have st: "lumiaLibrary staleSettings = Some []" "worldBookData staleSettings = JObj []"
    "worldBookUrl staleSettings = JStr ''http://x/book.json''"
    by (simp_all add: staleSettings_def)
  show ?thesis
    using a b c deriveItems_legacySettings r1 k1 a2 b2 deriveItems_staleSettings r2 k2 st
    by auto
qed

text \<open>
  C1 as stated fails when the migration derives no item: with an empty flat library and
  a raw payload that has no entries the guard fires, the call returns the settings as
  they were, and all three legacy keys are still there.
\<close>

theorem migrateSettings_keeps_stale_keys:
  "legacyPresent staleSettings \<and> packs staleSettings = Some []
   \<and> migrateSettings staleSettings = Inr (staleSettings, False)
   \<and> lumiaLibrary staleSettings = Some []
   \<and> worldBookData staleSettings = JObj []
   \<and> worldBookUrl staleSettings = JStr ''http://x/book.json''"
  by (simp add: migrateSettings_def legacyPresent_def staleSettings_def deriveItems_def
      processWorldBook_ext_def ensureDefaults_def)

subsection \<open>Selections by index\<close>

text \<open>
  C4, as the code has it. A numeric index \<open>i\<close> becomes the pair of the label
  \<open>Default (Legacy)\<close> and the name of the item at position \<open>i\<close> when \<open>i\<close> is in range
  and that item has a name, and \<open>null\<close> otherwise; a non-empty sequence of indices
  becomes the sequence of what its indices become, in order, without the \<open>null\<close>s; on
  indices neither raises an error. In the settings the rule is applied only when the
  migration derived at least one item: then, whenever the call returns, the flag is set,
  a numeric single selection is replaced by what its index becomes and a multi-selection
  that is a sequence of indices by what the sequence becomes, and the call does return
  whenever the migration of the two multi-selections raises nothing. When no item is
  derived the call returns with the flag not set, the single selection as it was, and
  every multi-selection that is there as it was.
\<close>

theorem selection_migration:
  "migrateIndex items (JNum i) = Inr (specSelection items i)
   \<and> (js \<noteq> [] \<longrightarrow>
        migrateMulti items (JArr (map JNum js)) =
          Inr (JArr (filter (\<lambda>v. v \<noteq> JNull) (map (specSelection items) js))))
   \<and> (legacyPresent s \<and> packs s = Some [] \<and> deriveItems s = Inr items \<longrightarrow>
        (items \<noteq> [] \<longrightarrow>
           (\<forall>s' m. migrateSettings s = Inr (s', m) \<longrightarrow>
                m
              \<and> (selectedDefinition s = JNum i \<longrightarrow>
                   selectedDefinition s' = specSelection items i)
              \<and> (js \<noteq> [] \<and> selectedBehaviors s = JArr (map JNum js) \<longrightarrow>
                   selectedBehaviors s' =
                     JArr (filter (\<lambda>v. v \<noteq> JNull) (map (specSelection items) js)))
              \<and> (js \<noteq> [] \<and> selectedPersonalities s = JArr (map JNum js) \<longrightarrow>
                   selectedPersonalities s' =
                     JArr (filter (\<lambda>v. v \<noteq> JNull) (map (specSelection items) js))))
         \<and> ((\<exists>b. migrateMulti items (selectedBehaviors s) = Inr b)
              \<and> (\<exists>p. migrateMulti items (selectedPersonalities s) = Inr p) \<longrightarrow>
            (\<exists>s'. migrateSettings s = Inr (s', True))))
      \<and> (items = [] \<longrightarrow>
           (\<exists>s'. migrateSettings s = Inr (s', False)
              \<and> selectedDefinition s' = selectedDefinition s
              \<and> (truthy (selectedBehaviors s) \<longrightarrow> selectedBehaviors s' = selectedBehaviors s)
              \<and> (truthy (selectedPersonalities s) \<longrightarrow>
                   selectedPersonalities s' = selectedPersonalities s))))"
proof (intro conjI impI)
  show "migrateIndex items (JNum i) = Inr (specSelection items i)"
    by (rule migrateIndex_spec)
next
  assume "js \<noteq> []"
  then show "migrateMulti items (JArr (map JNum js)) =
          Inr (JArr (filter (\<lambda>v. v \<noteq> JNull) (map (specSelection items) js)))"
    by (rule migrateMulti_indices)
next
  assume g: "legacyPresent s \<and> packs s = Some [] \<and> deriveItems s = Inr items"
    and ne: "items \<noteq> []"
  show "\<forall>s' m. migrateSettings s = Inr (s', m) \<longrightarrow>
                m
              \<and> (selectedDefinition s = JNum i \<longrightarrow>
                   selectedDefinition s' = specSelection items i)
              \<and> (js \<noteq> [] \<and> selectedBehaviors s = JArr (map JNum js) \<longrightarrow>
                   selectedBehaviors s' =
                     JArr (filter (\<lambda>v. v \<noteq> JNull) (map (specSelection items) js)))
              \<and> (js \<noteq> [] \<and> selectedPersonalities s = JArr (map JNum js) \<longrightarrow>
                   selectedPersonalities s' =
                     JArr (filter (\<lambda>v. v \<noteq> JNull) (map (specSelection items) js)))"
  proof (intro allI impI)
    fix s' m
    assume r: "migrateSettings s = Inr (s', m)"
    from g ne r obtain b p where b: "migrateMulti items (selectedBehaviors s) = Inr b"
      and p: "migrateMulti items (selectedPersonalities s) = Inr p"
      and m: m
      and sd: "selectedDefinition s' =
                 (case selectedDefinition s of JNum i \<Rightarrow> specSelection items i
                  | _ \<Rightarrow> selectedDefinition s)"
      and sb: "selectedBehaviors s' = b" and sp: "selectedPersonalities s' = p"
      using migrateSettings_returned [of s items s' m] by auto
    have "selectedDefinition s = JNum i \<longrightarrow> selectedDefinition s' = specSelection items i"
      using sd by simp
    moreover have "js \<noteq> [] \<and> selectedBehaviors s = JArr (map JNum js) \<longrightarrow>
                   selectedBehaviors s' =
                     JArr (filter (\<lambda>v. v \<noteq> JNull) (map (specSelection items) js))"
      using b sb by (auto simp: migrateMulti_indices)
    moreover have "js \<noteq> [] \<and> selectedPersonalities s = JArr (map JNum js) \<longrightarrow>
                   selectedPersonalities s' =
                     JArr (filter (\<lambda>v. v \<noteq> JNull) (map (specSelection items) js))"
      using p sp by (auto simp: migrateMulti_indices)
    ultimately show "m
              \<and> (selectedDefinition s = JNum i \<longrightarrow>
                   selectedDefinition s' = specSelection items i)
              \<and> (js \<noteq> [] \<and> selectedBehaviors s = JArr (map JNum js) \<longrightarrow>
                   selectedBehaviors s' =
                     JArr (filter (\<lambda>v. v \<noteq> JNull) (map (specSelection items) js)))
              \<and> (js \<noteq> [] \<and> selectedPersonalities s = JArr (map JNum js) \<longrightarrow>
                   selectedPersonalities s' =
                     JArr (filter (\<lambda>v. v \<noteq> JNull) (map (specSelection items) js)))"
      using m by blast
  qed
next
  assume g: "legacyPresent s \<and> packs s = Some [] \<and> deriveItems s = Inr items"
    and ne: "items \<noteq> []"
    and "(\<exists>b. migrateMulti items (selectedBehaviors s) = Inr b)
              \<and> (\<exists>p. migrateMulti items (selectedPersonalities s) = Inr p)"
  then show "\<exists>s'. migrateSettings s = Inr (s', True)"
    by (auto simp: migrateSettings_run)
next
  assume g: "legacyPresent s \<and> packs s = Some [] \<and> deriveItems s = Inr items"
    and e: "items = []"
  then have "migrateSettings s = Inr (ensureDefaults s, False)"
    by (simp add: migrateSettings_no_items)
  then show "\<exists>s'. migrateSettings s = Inr (s', False)
              \<and> selectedDefinition s' = selectedDefinition s
              \<and> (truthy (selectedBehaviors s) \<longrightarrow> selectedBehaviors s' = selectedBehaviors s)
              \<and> (truthy (selectedPersonalities s) \<longrightarrow>
                   selectedPersonalities s' = selectedPersonalities s)"
    by (simp add: ensureDefaults_selections)
qed

theorem selection_migration_witness:
  "migrateIndex fiveItems (JNum 2) = Inr (legacyRef ''Cyd'')
   \<and> migrateMulti fiveItems (JArr (map JNum [0, 99, 3, 4])) =
       Inr (JArr [legacyRef ''Aria'', legacyRef ''Eve''])
   \<and> legacyPresent legacySettings \<and> packs legacySettings = Some []
   \<and> deriveItems legacySettings = Inr fiveItems \<and> fiveItems \<noteq> []
   \<and> selectedDefinition legacySettings = JNum 2
   \<and> selectedBehaviors legacySettings = JArr (map JNum [0, 99, 3, 4])
   \<and> selectedPersonalities legacySettings = JArr (map JNum [1])
   \<and> (\<exists>s'. migrateSettings legacySettings = Inr (s', True)
          \<and> selectedDefinition s' = legacyRef ''Cyd''
          \<and> selectedBehaviors s' = JArr [legacyRef ''Aria'', legacyRef ''Eve'']
          \<and> selectedPersonalities s' = JArr [legacyRef ''Bo''])
   \<and> legacyPresent emptyLibrarySettings \<and> packs emptyLibrarySettings = Some []
   \<and> deriveItems emptyLibrarySettings = Inr []
   \<and> (\<exists>s'. migrateSettings emptyLibrarySettings = Inr (s', False)
          \<and> selectedDefinition s' = JNum 0 \<and> selectedBehaviors s' = JArr [JNum 0])"
proof -
  note t = selection_migration [of fiveItems 2 "[0, 99, 3, 4]" legacySettings]
  have g: "legacyPresent legacySettings" "packs legacySettings = Some []"
    "selectedDefinition legacySettings = JNum 2"
    "selectedBehaviors legacySettings = JArr (map JNum [0, 99, 3, 4])"
    by (simp_all add: legacyPresent_def legacySettings_def)
  have ne: "fiveItems \<noteq> []"
    by (simp add: fiveItems_def)
  have f: "filter (\<lambda>v. v \<noteq> JNull) (map (specSelection fiveItems) [0, 99, 3, 4]) =
           [legacyRef ''Aria'', legacyRef ''Eve'']"
    by (simp add: specSelection_fiveItems legacyRef_not_null)
  have i: "migrateIndex fiveItems (JNum 2) = Inr (legacyRef ''Cyd'')"
    using t by (simp add: specSelection_fiveItems)
  have mb: "migrateMulti fiveItems (JArr (map JNum [0, 99, 3, 4])) =
              Inr (JArr [legacyRef ''Aria'', legacyRef ''Eve''])"
    using t f by simp
  have mp: "migrateMulti fiveItems (selectedPersonalities legacySettings) =
              Inr (JArr (filter (\<lambda>v. v \<noteq> JNull) (map (specSelection fiveItems) [1])))"
    using migrateMulti_indices [of "[1]" fiveItems] by (simp add: legacySettings_def)
  from t g(1,2) deriveItems_legacySettings ne mb mp g(4)
  obtain s1 where r1: "migrateSettings legacySettings = Inr (s1, True)"
    by metis
  from t g deriveItems_legacySettings ne r1
  have k1: "selectedDefinition s1 = specSelection fiveItems 2
            \<and> selectedBehaviors s1 =
                JArr (filter (\<lambda>v. v \<noteq> JNull) (map (specSelection fiveItems) [0, 99, 3, 4]))"
    by blast
  then have k1': "selectedDefinition s1 = legacyRef ''Cyd''
                  \<and> selectedBehaviors s1 = JArr [legacyRef ''Aria'', legacyRef ''Eve'']"
    by (simp only: f specSelection_fiveItems)
  have gp: "selectedPersonalities legacySettings = JArr (map JNum [1])"
    by (simp add: legacySettings_def)
  have "selectedPersonalities s1 =
          JArr (filter (\<lambda>v. v \<noteq> JNull) (map (specSelection fiveItems) [1]))"
    using selection_migration [of fiveItems 2 "[1]" legacySettings] g(1,2)
      deriveItems_legacySettings ne r1 gp
    by blast
  then have kp: "selectedPersonalities s1 = JArr [legacyRef ''Bo'']"
    by (simp add: specSelection_fiveItems legacyRef_not_null)
  note t2 = selection_migration [of "[]" 0 "[0]" emptyLibrarySettings]
  have g2: "legacyPresent emptyLibrarySettings" "packs emptyLibrarySettings = Some []"
    "selectedDefinition emptyLibrarySettings = JNum 0"
    "selectedBehaviors emptyLibrarySettings = JArr [JNum 0]"
    "truthy (selectedBehaviors emptyLibrarySettings)"
    by (simp_all add: legacyPresent_def emptyLibrarySettings_def)
  from t2 g2 deriveItems_emptyLibrarySettings
  obtain s2 where r2: "migrateSettings emptyLibrarySettings = Inr (s2, False)"
    and k2: "selectedDefinition s2 = JNum 0" "selectedBehaviors s2 = JArr [JNum 0]"
    by auto
  show ?thesis
    using i mb g gp ne deriveItems_legacySettings r1 k1' kp g2
      deriveItems_emptyLibrarySettings r2 k2
    by blast
qed

text \<open>
  C4 as stated fails when the migration derives no item: with an empty flat library and
  no payload the guard fires, but the call returns the settings as they were, and the
  single selection is still the number 0 although no item is at position 0 and the rule
  asks for \<open>null\<close>; the sequence of indices is left as well.
\<close>

theorem selection_left_without_items:
  "legacyPresent emptyLibrarySettings \<and> packs emptyLibrarySettings = Some []
   \<and> selectedDefinition emptyLibrarySettings = JNum 0
   \<and> selectedBehaviors emptyLibrarySettings = JArr [JNum 0]
   \<and> specSelection [] 0 = JNull
   \<and> migrateSettings emptyLibrarySettings = Inr (emptyLibrarySettings, False)"
  by (simp add: migrateSettings_def legacyPresent_def emptyLibrarySettings_def deriveItems_def
      ensureDefaults_def specSelection_def legacyRef_def)

subsection \<open>Selections that are not indices\<close>

text \<open>
  C10, as the code has it. Let the guard fire and the migration derive at least one
  item. Whenever the call returns, the flag is set and a multi-selection list that is
  not in index form (it is empty, or its first element is not a number) is the empty
  sequence, so that selections that name their items are discarded; and the call does
  return, with that list empty and the other list migrated, whenever the migration of
  the other list raises nothing. When no item is derived the call returns with the flag
  not set and every list that is there as it was.
\<close>

theorem multi_selection_reset:
  "legacyPresent s \<and> packs s = Some [] \<and> deriveItems s = Inr items \<longrightarrow>
     (items \<noteq> [] \<longrightarrow>
        (\<forall>s' m. migrateSettings s = Inr (s', m) \<longrightarrow>
             m
           \<and> (\<forall>xs. selectedBehaviors s = JArr xs \<and> (xs = [] \<or> \<not> isNumber (hd xs)) \<longrightarrow>
                 selectedBehaviors s' = JArr [])
           \<and> (\<forall>xs. selectedPersonalities s = JArr xs \<and> (xs = [] \<or> \<not> isNumber (hd xs)) \<longrightarrow>
                 selectedPersonalities s' = JArr []))
      \<and> (\<forall>xs p. selectedBehaviors s = JArr xs \<and> (xs = [] \<or> \<not> isNumber (hd xs))
              \<and> migrateMulti items (selectedPersonalities s) = Inr p \<longrightarrow>
           (\<exists>s'. migrateSettings s = Inr (s', True)
              \<and> selectedBehaviors s' = JArr [] \<and> selectedPersonalities s' = p))
      \<and> (\<forall>xs b. selectedPersonalities s = JArr xs \<and> (xs = [] \<or> \<not> isNumber (hd xs))
              \<and> migrateMulti items (selectedBehaviors s) = Inr b \<longrightarrow>
           (\<exists>s'. migrateSettings s = Inr (s', True)
              \<and> selectedBehaviors s' = b \<and> selectedPersonalities s' = JArr [])))
   \<and> (items = [] \<longrightarrow>
        (\<exists>s'. migrateSettings s = Inr (s', False)
           \<and> (truthy (selectedBehaviors s) \<longrightarrow> selectedBehaviors s' = selectedBehaviors s)
           \<and> (truthy (selectedPersonalities s) \<longrightarrow>
                selectedPersonalities s' = selectedPersonalities s)))"
proof (intro conjI impI)
  assume g: "legacyPresent s \<and> packs s = Some [] \<and> deriveItems s = Inr items"
    and ne: "items \<noteq> []"
  show "\<forall>s' m. migrateSettings s = Inr (s', m) \<longrightarrow>
             m
           \<and> (\<forall>xs. selectedBehaviors s = JArr xs \<and> (xs = [] \<or> \<not> isNumber (hd xs)) \<longrightarrow>
                 selectedBehaviors s' = JArr [])
           \<and> (\<forall>xs. selectedPersonalities s = JArr xs \<and> (xs = [] \<or> \<not> isNumber (hd xs)) \<longrightarrow>
                 selectedPersonalities s' = JArr [])"
  proof (intro allI impI)
    fix s' m
    assume r: "migrateSettings s = Inr (s', m)"
    from g ne r obtain b p where b: "migrateMulti items (selectedBehaviors s) = Inr b"
      and p: "migrateMulti items (selectedPersonalities s) = Inr p"
      and m: m
      and sb: "selectedBehaviors s' = b" and sp: "selectedPersonalities s' = p"
      using migrateSettings_returned [of s items s' m] by auto
    have "\<forall>xs. selectedBehaviors s = JArr xs \<and> (xs = [] \<or> \<not> isNumber (hd xs)) \<longrightarrow>
                 selectedBehaviors s' = JArr []"
      using b sb migrateMulti_not_index [of "selectedBehaviors s" _ items] by auto
    moreover have "\<forall>xs. selectedPersonalities s = JArr xs \<and> (xs = [] \<or> \<not> isNumber (hd xs)) \<longrightarrow>
                 selectedPersonalities s' = JArr []"
      using p sp migrateMulti_not_index [of "selectedPersonalities s" _ items] by auto
    ultimately show "m
           \<and> (\<forall>xs. selectedBehaviors s = JArr xs \<and> (xs = [] \<or> \<not> isNumber (hd xs)) \<longrightarrow>
                 selectedBehaviors s' = JArr [])
           \<and> (\<forall>xs. selectedPersonalities s = JArr xs \<and> (xs = [] \<or> \<not> isNumber (hd xs)) \<longrightarrow>
                 selectedPersonalities s' = JArr [])"
      using m by blast
  qed
next
  assume g: "legacyPresent s \<and> packs s = Some [] \<and> deriveItems s = Inr items"
    and ne: "items \<noteq> []"
  show "\<forall>xs p. selectedBehaviors s = JArr xs \<and> (xs = [] \<or> \<not> isNumber (hd xs))
              \<and> migrateMulti items (selectedPersonalities s) = Inr p \<longrightarrow>
           (\<exists>s'. migrateSettings s = Inr (s', True)
              \<and> selectedBehaviors s' = JArr [] \<and> selectedPersonalities s' = p)"
  proof (intro allI impI)
    fix xs p
    assume h: "selectedBehaviors s = JArr xs \<and> (xs = [] \<or> \<not> isNumber (hd xs))
              \<and> migrateMulti items (selectedPersonalities s) = Inr p"
    then have b: "migrateMulti items (selectedBehaviors s) = Inr (JArr [])"
      using migrateMulti_not_index [of "selectedBehaviors s" xs items] by blast
    have "truthy p"
      using h migrateMulti_truthy by blast
    then show "\<exists>s'. migrateSettings s = Inr (s', True)
              \<and> selectedBehaviors s' = JArr [] \<and> selectedPersonalities s' = p"
      using g ne b h by (simp add: migrateSettings_run ensureDefaults_def)
  qed
next
  assume g: "legacyPresent s \<and> packs s = Some [] \<and> deriveItems s = Inr items"
    and ne: "items \<noteq> []"
  show "\<forall>xs b. selectedPersonalities s = JArr xs \<and> (xs = [] \<or> \<not> isNumber (hd xs))
              \<and> migrateMulti items (selectedBehaviors s) = Inr b \<longrightarrow>
           (\<exists>s'. migrateSettings s = Inr (s', True)
              \<and> selectedBehaviors s' = b \<and> selectedPersonalities s' = JArr [])"
  proof (intro allI impI)
    fix xs b
    assume h: "selectedPersonalities s = JArr xs \<and> (xs = [] \<or> \<not> isNumber (hd xs))
              \<and> migrateMulti items (selectedBehaviors s) = Inr b"
    then have p: "migrateMulti items (selectedPersonalities s) = Inr (JArr [])"
      using migrateMulti_not_index [of "selectedPersonalities s" xs items] by blast
    have "truthy b"
      using h migrateMulti_truthy by blast
    then show "\<exists>s'. migrateSettings s = Inr (s', True)
              \<and> selectedBehaviors s' = b \<and> selectedPersonalities s' = JArr []"
      using g ne p h by (simp add: migrateSettings_run ensureDefaults_def)
  qed
next
  assume g: "legacyPresent s \<and> packs s = Some [] \<and> deriveItems s = Inr items"
    and e: "items = []"
  then have "migrateSettings s = Inr (ensureDefaults s, False)"
    by (simp add: migrateSettings_no_items)
  then show "\<exists>s'. migrateSettings s = Inr (s', False)
           \<and> (truthy (selectedBehaviors s) \<longrightarrow> selectedBehaviors s' = selectedBehaviors s)
           \<and> (truthy (selectedPersonalities s) \<longrightarrow>
                selectedPersonalities s' = selectedPersonalities s)"
    by (simp add: ensureDefaults_selections)
qed

theorem multi_selection_reset_witness:
  "legacyPresent mixedSettings \<and> packs mixedSettings = Some []
   \<and> deriveItems mixedSettings = Inr fiveItems \<and> fiveItems \<noteq> []
   \<and> selectedBehaviors mixedSettings = JArr [legacyRef ''Bo'']
   \<and> \<not> isNumber (hd [legacyRef ''Bo''])
   \<and> selectedPersonalities mixedSettings = JArr []
   \<and> (\<exists>s'. migrateSettings mixedSettings = Inr (s', True)
          \<and> selectedBehaviors s' = JArr [] \<and> selectedPersonalities s' = JArr [])
   \<and> legacyPresent emptyLibrarySettings \<and> packs emptyLibrarySettings = Some []
   \<and> deriveItems emptyLibrarySettings = Inr []
   \<and> truthy (selectedBehaviors emptyLibrarySettings)
   \<and> truthy (selectedPersonalities emptyLibrarySettings)
   \<and> (\<exists>s'. migrateSettings emptyLibrarySettings = Inr (s', False)
          \<and> selectedBehaviors s' = JArr [JNum 0]
          \<and> selectedPersonalities s' = JArr [legacyRef ''Bo''])"
proof -
  note t = multi_selection_reset [of mixedSettings fiveItems]
  have g: "legacyPresent mixedSettings" "packs mixedSettings = Some []"
    "selectedBehaviors mixedSettings = JArr [legacyRef ''Bo'']"
    "\<not> isNumber (hd [legacyRef ''Bo''])"
    "selectedPersonalities mixedSettings = JArr []"
    by (simp_all add: legacyPresent_def mixedSettings_def legacyRef_def)
  have ne: "fiveItems \<noteq> []"
    by (simp add: fiveItems_def)
  have mp: "migrateMulti fiveItems (selectedPersonalities mixedSettings) = Inr (JArr [])"
    by (simp add: g(5) migrateMulti_def)
  from t g deriveItems_mixedSettings ne mp
  obtain s1 where r1: "migrateSettings mixedSettings = Inr (s1, True)"
    and k1: "selectedBehaviors s1 = JArr []" "selectedPersonalities s1 = JArr []"
    by blast
  note t2 = multi_selection_reset [of emptyLibrarySettings "[]"]
  have g2: "legacyPresent emptyLibrarySettings" "packs emptyLibrarySettings = Some []"
    "selectedPersonalities emptyLibrarySettings = JArr [legacyRef ''Bo'']"
    "truthy (selectedPersonalities emptyLibrarySettings)"
    "selectedBehaviors emptyLibrarySettings = JArr [JNum 0]"
    "truthy (selectedBehaviors emptyLibrarySettings)"
    by (simp_all add: legacyPresent_def emptyLibrarySettings_def)
  from t2 g2 deriveItems_emptyLibrarySettings
  obtain s2 where r2: "migrateSettings emptyLibrarySettings = Inr (s2, False)"
    and k2: "selectedPersonalities s2 = JArr [legacyRef ''Bo'']"
      "selectedBehaviors s2 = JArr [JNum 0]"
    by auto
  show ?thesis
    using g ne deriveItems_mixedSettings r1 k1 g2 deriveItems_emptyLibrarySettings r2 k2
    by blast
qed

text \<open>
  C10 as stated fails when the migration derives no item: with an empty flat library
  and no payload the guard fires, but the call returns the settings as they were, and
  the list of personalities still holds the selection that names its item.
\<close>

theorem named_selection_kept_without_items:
  "legacyPresent emptyLibrarySettings \<and> packs emptyLibrarySettings = Some []
   \<and> selectedPersonalities emptyLibrarySettings = JArr [legacyRef ''Bo'']
   \<and> \<not> isNumber (legacyRef ''Bo'')
   \<and> migrateSettings emptyLibrarySettings = Inr (emptyLibrarySettings, False)"
  by (simp add: migrateSettings_def legacyPresent_def emptyLibrarySettings_def deriveItems_def
      ensureDefaults_def legacyRef_def)

section \<open>Properties of the converter\<close>

subsection \<open>The loop body and the classification agree\<close>

lemma processEntry_classify:
  "processEntry e st =
     (case classify e of
        Inl err \<Rightarrow> Inl err
      | Inr Dropped \<Rightarrow> Inr st
      | Inr (LoomFragment l) \<Rightarrow> Inr (fst st, snd st @ [l])
      | Inr (LumiaFragment name ty text) \<Rightarrow> Inr (aggregate name ty text (fst st), snd st))"
  by (cases st) (simp add: processEntry_def classify_def processLumia_def Let_def
      split: jsval.splits option.splits)

lemma classify_content:
  "classify e = Inr (LumiaFragment name ty text) \<Longrightarrow> getProp e ''content'' = JStr text"
  by (auto simp: classify_def Let_def split: if_splits jsval.splits option.splits)

lemma map_of_aggregate:
  "map_of (aggregate name ty text m) name =
     Some (applyType ty text (case map_of m name of Some l \<Rightarrow> l | None \<Rightarrow> newLumia name))"
  by (simp add: aggregate_def update_conv' split: option.splits)

lemma map_of_setProp:
  "map_of (setProp obj k v) k' = (if k' = k then Some v else map_of obj k')"
  by (simp add: setProp_def update_conv')

subsection \<open>convertPack\<close>

lemma getProp_newPack_lumiaItems [simp]:
  "getProp (newPack a b c d l m) ''lumiaItems'' = JArr l"
  by (simp add: newPack_def)

lemma truthy_getProp_not_nullish: "truthy (getProp p k) \<Longrightarrow> \<not> nullish p"
  by (cases p) auto

text \<open>
  C3, as the code has it. The first test of \<open>convertPack\<close> is on the truth value of the
  two fields: a payload whose \<open>lumiaItems\<close> or \<open>loomItems\<close> is truthy (any array or
  object, also an empty one) is returned as it is. Every pack that \<open>convertPack\<close>
  returns has an array \<open>lumiaItems\<close>, so converting the result again, under any source
  name, gives the same value: conversion is idempotent on every payload it accepts.
\<close>

theorem convertPack_idempotent:
  "(truthy (getProp p ''lumiaItems'') \<or> truthy (getProp p ''loomItems'')
      \<longrightarrow> convertPack p n = Inr p)
   \<and> (convertPack p n = Inr q \<longrightarrow> convertPack q n = Inr q)"
proof (intro conjI impI)
  assume t: "truthy (getProp p ''lumiaItems'') \<or> truthy (getProp p ''loomItems'')"
  then have "\<not> nullish p"
    by (auto dest: truthy_getProp_not_nullish)
  with t show "convertPack p n = Inr p"
    by (simp add: convertPack_def)
next
  assume c: "convertPack p n = Inr q"
  have t: "truthy (getProp q ''lumiaItems'') \<or> truthy (getProp q ''loomItems'')"
    using c
    by (auto simp: convertPack_def split: if_splits sum.splits jsval.splits prod.splits)
  then have "\<not> nullish q"
    by (auto dest: truthy_getProp_not_nullish)
  with t show "convertPack q n = Inr q"
    by (simp add: convertPack_def)
qed

theorem convertPack_idempotent_witness:
  "truthy (getProp emptyPack ''lumiaItems'') \<and> convertPack emptyPack ''Other'' = Inr emptyPack
   \<and> convertPack gothicBook ''Book'' = Inr gothicPack
   \<and> convertPack gothicPack ''Book'' = Inr gothicPack"
proof -
  have t: "truthy (getProp emptyPack ''lumiaItems'')"
    by (simp add: emptyPack_def)
  have c: "convertPack gothicBook ''Book'' = Inr gothicPack"
    unfolding gothicBook_def gothicPack_def entry_def by code_simp
  show ?thesis
    using t c convertPack_idempotent [of emptyPack "''Other''" emptyPack]
      convertPack_idempotent [of gothicBook "''Book''" gothicPack]
    by simp
qed

text \<open>
  C3 as stated fails for a payload that has the fields without a truthy value in them:
  with \<open>lumiaItems\<close> and \<open>loomItems\<close> both \<open>null\<close> the payload is not returned; no other
  shape fits it and the conversion fails.
\<close>

theorem convertPack_null_fields_rejected:
  "map_of [(''packName'', JStr ''P''), (''lumiaItems'', JNull), (''loomItems'', JNull)]
      ''lumiaItems'' = Some JNull
   \<and> nullItemsPayload =
       JObj [(''packName'', JStr ''P''), (''lumiaItems'', JNull), (''loomItems'', JNull)]
   \<and> convertPack nullItemsPayload ''P'' = Inl UnknownInputFormat"
  by (simp add: convertPack_def nullItemsPayload_def)

text \<open>
  The order of the shape tests: a payload that is not \<open>null\<close> and fits none of the three
  shapes is refused with the error of the unknown format, and nothing else is returned;
  the test of the new format comes before the test of the World Book, which comes
  before the test of the \<open>items\<close> array.
\<close>

lemma convertPack_unknown_format:
  assumes "\<not> nullish p"
    and "\<not> truthy (getProp p ''lumiaItems'')" and "\<not> truthy (getProp p ''loomItems'')"
    and "\<not> truthy (getProp p ''entries'')" and "\<not> isArray p"
    and "\<not> isArray (getProp p ''items'')"
  shows "convertPack p n = Inl UnknownInputFormat"
  using assms by (auto simp add: convertPack_def split: jsval.splits)

lemma convertPack_new_format_first:
  assumes "truthy (getProp p ''lumiaItems'') \<or> truthy (getProp p ''loomItems'')"
  shows "convertPack p n = Inr p"
  using assms by (auto simp add: convertPack_def dest: truthy_getProp_not_nullish)

lemma convertPack_world_book_second:
  assumes "\<not> nullish p"
    and "\<not> truthy (getProp p ''lumiaItems'')" and "\<not> truthy (getProp p ''loomItems'')"
    and "truthy (getProp p ''entries'') \<or> isArray p"
  shows "convertPack p n =
           (case processWorldBook p of
              Inl err \<Rightarrow> Inl err
            | Inr (lumiaItems, loomItems) \<Rightarrow>
                Inr (newPack (JStr n) JNull JNull (JArr []) lumiaItems loomItems))"
  using assms by (auto simp add: convertPack_def)

lemma convertPack_fails_without_pack:
  assumes "\<not> truthy (getProp p ''lumiaItems'')" and "\<not> truthy (getProp p ''loomItems'')"
    and "\<not> truthy (getProp p ''entries'')" and "\<not> isArray p"
    and "\<not> isArray (getProp p ''items'')"
  shows "\<exists>err. convertPack p n = Inl err"
  using assms by (auto simp add: convertPack_def split: jsval.splits)

text \<open>
  C8. The payload \<open>null\<close> fits none of the shapes, and for it the conversion does not
  reach the error of the unknown format: the first test reads \<open>inputData.lumiaItems\<close>,
  which on \<open>null\<close> raises a TypeError.
\<close>

theorem convertPack_null_payload:
  "\<not> truthy (getProp JNull ''lumiaItems'') \<and> \<not> truthy (getProp JNull ''loomItems'')
   \<and> \<not> truthy (getProp JNull ''entries'') \<and> \<not> isArray JNull
   \<and> \<not> isArray (getProp JNull ''items'')
   \<and> convertPack JNull ''pack'' = Inl TypeError"
  by (simp add: convertPack_def)

subsection \<open>The type of an entry\<close>

lemma strIncludes_iff: "strIncludes s n \<longleftrightarrow> (\<exists>a b. s = a @ n @ b)"
proof (induction s)
  case Nil
  show ?case
    by simp
next
  case (Cons c cs)
  have st: "startsWith n (c # cs) \<longleftrightarrow> (\<exists>b. c # cs = n @ b)"
    unfolding startsWith_def by (metis append_eq_conv_conj append_take_drop_id)
  have "(\<exists>a b. c # cs = a @ n @ b) \<longleftrightarrow> (\<exists>b. c # cs = n @ b) \<or> (\<exists>a b. cs = a @ n @ b)"
  proof
    assume "\<exists>a b. c # cs = a @ n @ b"
    then obtain a b where ab: "c # cs = a @ n @ b"
      by blast
    show "(\<exists>b. c # cs = n @ b) \<or> (\<exists>a b. cs = a @ n @ b)"
    proof (cases a)
      case Nil
      with ab show ?thesis
        by auto
    next
      case (Cons x a')
      with ab have "cs = a' @ n @ b"
        by simp
      then show ?thesis
        by blast
    qed
  next
    assume "(\<exists>b. c # cs = n @ b) \<or> (\<exists>a b. cs = a @ n @ b)"
    then show "\<exists>a b. c # cs = a @ n @ b"
    proof
      assume "\<exists>b. c # cs = n @ b"
      then obtain b where "c # cs = [] @ n @ b"
        by auto
      then show ?thesis
        by blast
    next
      assume "\<exists>a b. cs = a @ n @ b"
      then obtain a b where "c # cs = (c # a) @ n @ b"
        by auto
      then show ?thesis
        by blast
    qed
  qed
  with st Cons.IH show ?case
    by simp
qed

lemma hasKeyword_iff: "hasKeyword k comment \<longleftrightarrow> strIncludes (toLowerCase comment) k"
  by (simp add: hasKeyword_def strIncludes_iff)

text \<open>
  C2, as the code has it. Each type is decided by its outlet name or its keyword, the
  types in the order definition, behavior, personality: an entry is a definition when its
  outlet is \<open>Lumia_Description\<close> or its comment contains "definition", whatever the case
  of the letters; otherwise a behavior when its outlet is \<open>Lumia_Behavior\<close> or its
  comment contains "behavior"; otherwise a personality when its outlet is
  \<open>Lumia_Personality\<close> or its comment contains "personality"; otherwise a definition
  when the category is "lumia" or the content holds the opening of an image tag, and of
  no type when it does not. In particular an entry of the outlet \<open>Lumia_Behavior\<close> is a
  behavior unless its comment contains "definition", and then it is a definition.
\<close>

theorem determineType_order:
  "(getProp e ''outletName'' = JStr ''Lumia_Description'' \<or> hasKeyword ''definition'' comment \<longrightarrow>
      determineType e comment cat text = Some Definition)
   \<and> (\<not> (getProp e ''outletName'' = JStr ''Lumia_Description'' \<or> hasKeyword ''definition'' comment)
        \<and> (getProp e ''outletName'' = JStr ''Lumia_Behavior'' \<or> hasKeyword ''behavior'' comment) \<longrightarrow>
      determineType e comment cat text = Some Behavior)
   \<and> (\<not> (getProp e ''outletName'' = JStr ''Lumia_Description'' \<or> hasKeyword ''definition'' comment)
        \<and> \<not> (getProp e ''outletName'' = JStr ''Lumia_Behavior'' \<or> hasKeyword ''behavior'' comment)
        \<and> (getProp e ''outletName'' = JStr ''Lumia_Personality'' \<or> hasKeyword ''personality'' comment) \<longrightarrow>
      determineType e comment cat text = Some Personality)
   \<and> (\<not> (getProp e ''outletName'' = JStr ''Lumia_Description'' \<or> hasKeyword ''definition'' comment)
        \<and> \<not> (getProp e ''outletName'' = JStr ''Lumia_Behavior'' \<or> hasKeyword ''behavior'' comment)
        \<and> \<not> (getProp e ''outletName'' = JStr ''Lumia_Personality'' \<or> hasKeyword ''personality'' comment) \<longrightarrow>
      determineType e comment cat text =
        (if (\<exists>c. cat = Some c \<and> toLowerCase (trim c) = ''lumia'')
            \<or> (\<exists>a b. text = a @ ''[lumia_img='' @ b)
         then Some Definition else None))
   \<and> (getProp e ''outletName'' = JStr ''Lumia_Behavior'' \<longrightarrow>
      determineType e comment cat text =
        (if hasKeyword ''definition'' comment then Some Definition else Some Behavior))"
proof -
  define D where
    "D = (getProp e ''outletName'' = JStr ''Lumia_Description'' \<or> hasKeyword ''definition'' comment)"
  define B where
    "B = (getProp e ''outletName'' = JStr ''Lumia_Behavior'' \<or> hasKeyword ''behavior'' comment)"
  define P where
    "P = (getProp e ''outletName'' = JStr ''Lumia_Personality'' \<or> hasKeyword ''personality'' comment)"
  define C where "C = (\<exists>c. cat = Some c \<and> toLowerCase (trim c) = ''lumia'')"
  define T where "T = (\<exists>a b. text = a @ ''[lumia_img='' @ b)"
  define K where "K = hasKeyword ''definition'' comment"
  define ob where "ob = (getProp e ''outletName'' = JStr ''Lumia_Behavior'')"
  define r where "r = determineType e comment cat text"
  have c: "(case cat of Some c \<Rightarrow> toLowerCase (trim c) = ''lumia'' | None \<Rightarrow> False) \<longleftrightarrow>
           (\<exists>c. cat = Some c \<and> toLowerCase (trim c) = ''lumia'')"
    by (cases cat) simp_all
  have t: "strIncludes text ''[lumia_img='' \<longleftrightarrow> (\<exists>a b. text = a @ ''[lumia_img='' @ b)"
    by (rule strIncludes_iff)
  have r: "r = (if D then Some Definition else if B then Some Behavior
                else if P then Some Personality else if C then Some Definition
                else if T then Some Definition else None)"
    by (simp only: r_def D_def B_def P_def C_def T_def determineType_def Let_def
        hasKeyword_iff c t)
  have ob: "ob \<longrightarrow> B \<and> D = K"
    by (auto simp: ob_def B_def D_def K_def)
  have g: "(D \<longrightarrow> r = Some Definition)
     \<and> (\<not> D \<and> B \<longrightarrow> r = Some Behavior)
     \<and> (\<not> D \<and> \<not> B \<and> P \<longrightarrow> r = Some Personality)
     \<and> (\<not> D \<and> \<not> B \<and> \<not> P \<longrightarrow> r = (if C \<or> T then Some Definition else None))
     \<and> (ob \<longrightarrow> r = (if K then Some Definition else Some Behavior))"
    using r ob by auto
  show ?thesis
    using g unfolding r_def D_def B_def P_def C_def T_def K_def ob_def .
qed

theorem determineType_order_witness:
  "getProp (outletEntry ''Notes (Aria)'' ''Calm.'' ''Lumia_Description'') ''outletName'' =
      JStr ''Lumia_Description''
   \<and> determineType (outletEntry ''Notes (Aria)'' ''Calm.'' ''Lumia_Description'')
        ''Notes (Aria)'' (Some ''Notes'') ''Calm.'' = Some Definition
   \<and> getProp labelledEntry ''outletName'' = JStr ''Lumia_Behavior''
   \<and> hasKeyword ''definition'' ''definition (Aria)''
   \<and> determineType labelledEntry ''definition (Aria)'' (Some ''definition'') ''Calm.'' =
        Some Definition
   \<and> \<not> hasKeyword ''definition'' ''Notes (Aria)''
   \<and> determineType (outletEntry ''Notes (Aria)'' ''Calm.'' ''Lumia_Behavior'')
        ''Notes (Aria)'' (Some ''Notes'') ''Calm.'' = Some Behavior
   \<and> getProp (entry ''My PERSONALITY (Aria)'' ''Calm.'') ''outletName'' = JUndefined
   \<and> \<not> hasKeyword ''definition'' ''My PERSONALITY (Aria)''
   \<and> \<not> hasKeyword ''behavior'' ''My PERSONALITY (Aria)''
   \<and> hasKeyword ''personality'' ''My PERSONALITY (Aria)''
   \<and> determineType (entry ''My PERSONALITY (Aria)'' ''Calm.'')
        ''My PERSONALITY (Aria)'' (Some ''My PERSONALITY'') ''Calm.'' = Some Personality
   \<and> getProp (entry ''Notes (Aria)'' ''Calm.'') ''outletName'' = JUndefined
   \<and> \<not> hasKeyword ''behavior'' ''Notes (Aria)''
   \<and> \<not> hasKeyword ''personality'' ''Notes (Aria)''
   \<and> determineType (entry ''Notes (Aria)'' ''Calm.'') ''Notes (Aria)'' (Some ''Notes'') ''Calm.'' =
        None"
proof -
  have o1: "getProp (outletEntry ''Notes (Aria)'' ''Calm.'' ''Lumia_Description'') ''outletName'' =
      JStr ''Lumia_Description''"
    by (simp add: outletEntry_def)
  have o2: "getProp labelledEntry ''outletName'' = JStr ''Lumia_Behavior''"
    by (simp add: labelledEntry_def outletEntry_def)
  have o3: "getProp (outletEntry ''Notes (Aria)'' ''Calm.'' ''Lumia_Behavior'') ''outletName'' =
      JStr ''Lumia_Behavior''"
    by (simp add: outletEntry_def)
  have o4: "getProp (entry ''My PERSONALITY (Aria)'' ''Calm.'') ''outletName'' = JUndefined"
    by (simp add: entry_def)
  have o5: "getProp (entry ''Notes (Aria)'' ''Calm.'') ''outletName'' = JUndefined"
    by (simp add: entry_def)
  have k2: "hasKeyword ''definition'' ''definition (Aria)''"
    unfolding hasKeyword_iff by code_simp
  have k3: "\<not> hasKeyword ''definition'' ''Notes (Aria)''"
    "\<not> hasKeyword ''behavior'' ''Notes (Aria)''"
    "\<not> hasKeyword ''personality'' ''Notes (Aria)''"
    unfolding hasKeyword_iff by code_simp+
  have k4: "\<not> hasKeyword ''definition'' ''My PERSONALITY (Aria)''"
    "\<not> hasKeyword ''behavior'' ''My PERSONALITY (Aria)''"
    "hasKeyword ''personality'' ''My PERSONALITY (Aria)''"
    unfolding hasKeyword_iff by code_simp+
  have f: "\<not> ((\<exists>c. Some ''Notes'' = Some c \<and> toLowerCase (trim c) = ''lumia'')
              \<or> (\<exists>a b. ''Calm.'' = a @ ''[lumia_img='' @ b))"
  proof -
    have "toLowerCase (trim ''Notes'') \<noteq> ''lumia''"
      by code_simp
    moreover have "\<not> strIncludes ''Calm.'' ''[lumia_img=''"
      by code_simp
    ultimately show ?thesis
      by (simp only: strIncludes_iff) simp
  qed
  have r1: "determineType (outletEntry ''Notes (Aria)'' ''Calm.'' ''Lumia_Description'')
        ''Notes (Aria)'' (Some ''Notes'') ''Calm.'' = Some Definition"
    using o1 determineType_order [of "outletEntry ''Notes (Aria)'' ''Calm.'' ''Lumia_Description''"
        "''Notes (Aria)''" "Some ''Notes''" "''Calm.''"]
    by blast
  have r2: "determineType labelledEntry ''definition (Aria)'' (Some ''definition'') ''Calm.'' =
        Some Definition"
    using k2 determineType_order [of labelledEntry "''definition (Aria)''" "Some ''definition''"
        "''Calm.''"]
    by blast
  have r3: "determineType (outletEntry ''Notes (Aria)'' ''Calm.'' ''Lumia_Behavior'')
        ''Notes (Aria)'' (Some ''Notes'') ''Calm.'' = Some Behavior"
    using o3 k3 determineType_order [of "outletEntry ''Notes (Aria)'' ''Calm.'' ''Lumia_Behavior''"
        "''Notes (Aria)''" "Some ''Notes''" "''Calm.''"]
    by simp
  have r4: "determineType (entry ''My PERSONALITY (Aria)'' ''Calm.'')
        ''My PERSONALITY (Aria)'' (Some ''My PERSONALITY'') ''Calm.'' = Some Personality"
    using o4 k4 determineType_order [of "entry ''My PERSONALITY (Aria)'' ''Calm.''"
        "''My PERSONALITY (Aria)''" "Some ''My PERSONALITY''" "''Calm.''"]
    by simp
  have r5: "determineType (entry ''Notes (Aria)'' ''Calm.'') ''Notes (Aria)'' (Some ''Notes'')
        ''Calm.'' = None"
    using o5 k3 f determineType_order [of "entry ''Notes (Aria)'' ''Calm.''"
        "''Notes (Aria)''" "Some ''Notes''" "''Calm.''"]
    by simp
  show ?thesis
    using o1 o2 o4 o5 k2 k3 k4 r1 r2 r3 r4 r5 by blast
qed


text \<open>
  C2 as stated fails: an entry of the outlet \<open>Lumia_Behavior\<close> whose comment contains
  "definition" is classified as a definition, and its content becomes the definition
  text of the item while the behavior text stays empty.
\<close>

theorem keyword_before_outlet:
  "getProp labelledEntry ''outletName'' = JStr ''Lumia_Behavior''
   \<and> getProp labelledEntry ''comment'' = JStr ''definition (Aria)''
   \<and> strIncludes ''definition (Aria)'' ''definition''
   \<and> classify labelledEntry = Inr (LumiaFragment ''Aria'' (Some Definition) ''Calm.'')
   \<and> assemble [labelledEntry] =
       Inr ([JObj [(''lumiaName'', JStr ''Aria''), (''avatarUrl'', JNull),
                   (''lumiaPersonality'', JNull), (''lumiaBehavior'', JNull),
                   (''lumiaDefinition'', JStr ''Calm.''), (''authorName'', JNull),
                   (''genderIdentity'', JNum 0), (''version'', JNum 1)]], [])"
  unfolding labelledEntry_def outletEntry_def by code_simp

subsection \<open>Behavior fragments\<close>

text \<open>
  C6, as the code has it. For every entry classified as a behavior fragment, the
  behavior text of the item of its name is, right after the entry, the raw content of
  the entry, character for character, white space included. This holds from every state
  of the map, so a later behavior fragment for the same name overwrites an earlier one.
\<close>

theorem behavior_is_raw_content:
  assumes "classify e = Inr (LumiaFragment name (Some Behavior) text)"
  shows "getProp e ''content'' = JStr text \<and>
         (\<exists>m' item. processEntry e (m, l) = Inr (m', l) \<and> map_of m' name = Some item
             \<and> getProp (JObj item) ''lumiaBehavior'' = JStr text)"
  using assms classify_content [OF assms]
  by (simp add: processEntry_classify map_of_aggregate applyType_def map_of_setProp)

theorem behavior_is_raw_content_witness:
  "classify kindEntry = Inr (LumiaFragment ''Bo'' (Some Behavior) ''  Be kind.  '') \<and>
   getProp kindEntry ''content'' = JStr ''  Be kind.  '' \<and>
   (\<exists>m' item. processEntry kindEntry ([], []) = Inr (m', []) \<and> map_of m' ''Bo'' = Some item
       \<and> getProp (JObj item) ''lumiaBehavior'' = JStr ''  Be kind.  '')"
proof -
  have c: "classify kindEntry = Inr (LumiaFragment ''Bo'' (Some Behavior) ''  Be kind.  '')"
    unfolding kindEntry_def entry_def by code_simp
  show ?thesis
    using c behavior_is_raw_content [OF c, of "[]" "[]"] by simp
qed

text \<open>
  C6 as stated fails: the behavior text is not trimmed. The content \<open>"  Be kind.  "\<close> is
  stored with its two leading and two trailing spaces, while its trimmed form is
  \<open>"Be kind."\<close>.
\<close>

theorem behavior_not_trimmed:
  "classify kindEntry = Inr (LumiaFragment ''Bo'' (Some Behavior) ''  Be kind.  '') \<and>
   assemble [kindEntry] =
     Inr ([JObj [(''lumiaName'', JStr ''Bo''), (''avatarUrl'', JNull),
                 (''lumiaPersonality'', JNull), (''lumiaBehavior'', JStr ''  Be kind.  ''),
                 (''lumiaDefinition'', JNull), (''authorName'', JNull),
                 (''genderIdentity'', JNum 0), (''version'', JNum 1)]], []) \<and>
   trim ''  Be kind.  '' = ''Be kind.''"
  unfolding kindEntry_def entry_def by code_simp

subsection \<open>One item for each name\<close>


lemma keys_aggregate:
  "map fst (aggregate name ty text m) =
     (if name \<in> set (map fst m) then map fst m else map fst m @ [name])"
proof (cases "map_of m name")
  case None
  then have "name \<notin> set (map fst m)"
    by (simp add: map_of_eq_None_iff)
  with None show ?thesis
    by (simp add: aggregate_def update_keys)
next
  case (Some l)
  then have "name \<in> set (map fst m)"
    by (metis map_of_eq_None_iff option.distinct(1) set_map)
  with Some show ?thesis
    by (simp add: aggregate_def update_keys)
qed




lemma distinct_aggregate:
  "distinct (map fst m) \<Longrightarrow> distinct (map fst (aggregate name ty text m))"
  by (simp add: keys_aggregate)









subsection \<open>Entries without a name\<close>

lemma classify_returns:
  assumes "isRawEntry e"
  shows "\<exists>f. classify e = Inr f"
proof -
  from assms obtain props where e: "e = JObj props"
    by (cases e) (auto simp: isRawEntry_def)
  from assms e have "\<exists>c. js_or (getProp e ''comment'') (JStr []) = JStr c"
    by (auto simp: isRawEntry_def js_or_def split: option.splits jsval.splits)
  then obtain c where c: "js_or (getProp e ''comment'') (JStr []) = JStr c" ..
  have n: "\<not> nullish e" using e by simp
  show ?thesis
    using n c
    by (cases "getProp e ''content''")
       (auto simp: classify_def Let_def split: option.splits)
qed

lemma processEntries_returns:
  assumes "\<forall>e \<in> set es. isRawEntry e"
  shows "\<exists>st'. processEntries es st = Inr st'"
  using assms
proof (induction es arbitrary: st)
  case Nil
  then show ?case by simp
next
  case (Cons e es)
  from Cons.prems have "isRawEntry e" by simp
  from classify_returns [OF this] obtain f where "classify e = Inr f" ..
  then obtain st1 where "processEntry e st = Inr st1"
    by (cases f) (simp_all add: processEntry_classify)
  moreover from Cons.prems have "\<forall>e \<in> set es. isRawEntry e" by simp
  from Cons.IH [OF this] obtain st' where "processEntries es st1 = Inr st'" ..
  ultimately show ?case by simp
qed

lemma assemble_returns:
  assumes "\<forall>e \<in> set es. isRawEntry e"
  shows "\<exists>lumiaItems loomItems. assemble es = Inr (lumiaItems, loomItems)"
proof -
  from processEntries_returns [OF assms] obtain st' where "processEntries es ([], []) = Inr st'"
    by blast
  then show ?thesis
    by (cases st') (simp add: assemble_def)
qed


lemma drop_takeWhile: "drop (length (takeWhile P xs)) xs = dropWhile P xs"
  by (induction xs) auto

lemma lazyDotUntil_Some:
  assumes "lazyDotUntil d s = Some cap"
  shows "\<exists>b. s = cap @ d # b \<and> cap \<noteq> [] \<and> (\<forall>x \<in> set cap. \<not> isLineTerminator x)"
proof -
  from assms obtain c r where s: "s = c # r" and c: "\<not> isLineTerminator c"
    by (cases s) (auto simp: lazyDotUntil_def split: if_splits)
  define P where "P = (\<lambda>x. x \<noteq> d \<and> \<not> isLineTerminator x)"
  from assms s c obtain rest where
    d: "dropWhile P r = d # rest" and cap: "cap = c # takeWhile P r"
    by (auto simp: lazyDotUntil_def Let_def drop_takeWhile P_def split: list.splits if_splits)
  have "r = takeWhile P r @ dropWhile P r" by simp
  with d have "r = takeWhile P r @ d # rest" by simp
  moreover have "\<forall>x \<in> set (takeWhile P r). \<not> isLineTerminator x"
    by (auto dest: set_takeWhileD simp: P_def)
  ultimately have "s = cap @ d # rest" and "cap \<noteq> []"
    and "\<forall>x \<in> set cap. \<not> isLineTerminator x"
    using s c cap by simp_all
  then show ?thesis by blast
qed

lemma lazyDotUntil_complete:
  assumes "n \<noteq> []" and "\<forall>x \<in> set n. \<not> isLineTerminator x"
  shows "lazyDotUntil d (n @ d # b) \<noteq> None"
proof -
  from assms obtain c r where n: "n = c # r" by (cases n) auto
  define P where "P = (\<lambda>x. x \<noteq> d \<and> \<not> isLineTerminator x)"
  have "\<exists>rest. dropWhile P (r @ d # b) = d # rest"
  proof (cases "\<forall>x \<in> set r. P x")
    case True
    then show ?thesis by (simp add: dropWhile_append P_def)
  next
    case False
    then have ne: "dropWhile P r \<noteq> []" by (simp add: dropWhile_eq_Nil_conv)
    then have "\<not> P (hd (dropWhile P r))" by (rule hd_dropWhile)
    moreover have "hd (dropWhile P r) \<in> set r"
      using ne by (meson hd_in_set set_dropWhileD)
    ultimately have "hd (dropWhile P r) = d"
      using assms(2) n by (auto simp: P_def)
    with ne False show ?thesis
      by (cases "dropWhile P r") (auto simp: dropWhile_append)
  qed
  then show ?thesis
    using n assms(2)
    by (auto simp: lazyDotUntil_def Let_def drop_takeWhile P_def)
qed

lemma nameMatch_Some:
  assumes "nameMatch s = Some cap"
  shows "\<exists>a b. s = a @ ''('' @ cap @ '')'' @ b \<and> cap \<noteq> []
            \<and> (\<forall>x \<in> set cap. \<not> isLineTerminator x)"
  using assms
proof (induction s)
  case Nil
  then show ?case by simp
next
  case (Cons c cs)
  show ?case
  proof (cases "parenAt (c # cs)")
    case None
    with Cons.prems have "nameMatch cs = Some cap" by simp
    from Cons.IH [OF this] obtain a b where
      "cs = a @ ''('' @ cap @ '')'' @ b" "cap \<noteq> []" "\<forall>x \<in> set cap. \<not> isLineTerminator x"
      by blast
    then have "c # cs = (c # a) @ ''('' @ cap @ '')'' @ b" by simp
    with \<open>cap \<noteq> []\<close> \<open>\<forall>x \<in> set cap. \<not> isLineTerminator x\<close> show ?thesis by blast
  next
    case (Some cap')
    with Cons.prems have eq: "cap' = cap" by simp
    from Some have c: "c = CHR ''(''" and l: "lazyDotUntil (CHR '')'') cs = Some cap'"
      by (auto simp: parenAt_def split: if_splits)
    from lazyDotUntil_Some [OF l] eq obtain b where
      "cs = cap @ CHR '')'' # b" "cap \<noteq> []" "\<forall>x \<in> set cap. \<not> isLineTerminator x"
      by blast
    then have "c # cs = [] @ ''('' @ cap @ '')'' @ b" using c by simp
    with \<open>cap \<noteq> []\<close> \<open>\<forall>x \<in> set cap. \<not> isLineTerminator x\<close> show ?thesis by blast
  qed
qed

lemma nameMatch_complete:
  assumes "n \<noteq> []" and "\<forall>x \<in> set n. \<not> isLineTerminator x"
  shows "nameMatch (a @ ''('' @ n @ '')'' @ b) \<noteq> None"
proof (induction a)
  case Nil
  have "lazyDotUntil (CHR '')'') (n @ CHR '')'' # b) \<noteq> None"
    by (rule lazyDotUntil_complete [OF assms])
  then show ?case by (auto simp: parenAt_def)
next
  case (Cons c a)
  then show ?case by (auto split: option.splits)
qed

lemma nameMatch_None_iff:
  "nameMatch s = None \<longleftrightarrow>
     \<not> (\<exists>a n b. s = a @ ''('' @ n @ '')'' @ b \<and> n \<noteq> [] \<and> (\<forall>x \<in> set n. \<not> isLineTerminator x))"
proof
  assume "nameMatch s = None"
  show "\<not> (\<exists>a n b. s = a @ ''('' @ n @ '')'' @ b \<and> n \<noteq> [] \<and> (\<forall>x \<in> set n. \<not> isLineTerminator x))"
  proof
    assume "\<exists>a n b. s = a @ ''('' @ n @ '')'' @ b \<and> n \<noteq> [] \<and> (\<forall>x \<in> set n. \<not> isLineTerminator x)"
    then obtain a n b where "s = a @ ''('' @ n @ '')'' @ b" and "n \<noteq> []"
      and "\<forall>x \<in> set n. \<not> isLineTerminator x"
      by blast
    with nameMatch_complete [of n a b] \<open>nameMatch s = None\<close> show False by simp
  qed
next
  assume h: "\<not> (\<exists>a n b. s = a @ ''('' @ n @ '')'' @ b \<and> n \<noteq> [] \<and> (\<forall>x \<in> set n. \<not> isLineTerminator x))"
  show "nameMatch s = None"
  proof (rule ccontr)
    assume "nameMatch s \<noteq> None"
    then obtain cap where "nameMatch s = Some cap" by auto
    from nameMatch_Some [OF this] h show False by blast
  qed
qed


lemma trimEnd_decompose: "s = trimEnd s @ rev (takeWhile isWhiteSpace (rev s))"
proof -
  have "trimEnd s @ rev (takeWhile isWhiteSpace (rev s)) =
        rev (takeWhile isWhiteSpace (rev s) @ dropWhile isWhiteSpace (rev s))"
    unfolding trimEnd_def by (simp only: rev_append)
  also have "\<dots> = s"
    by (simp only: takeWhile_dropWhile_id rev_rev_ident)
  finally show ?thesis by (rule sym)
qed

lemma greedyDotParenEnd_Some:
  assumes "greedyDotParenEnd body = Some cap"
  shows "\<exists>b. body = cap @ '')'' @ b \<and> cap \<noteq> [] \<and> (\<forall>x \<in> set cap. \<not> isLineTerminator x)"
proof -
  from assms obtain rcap where
    r: "rev (trimEnd body) = CHR '')'' # rcap" and cap: "cap = rev rcap" and ne: "rcap \<noteq> []"
    and lt: "\<forall>x \<in> set rcap. \<not> isLineTerminator x"
    by (auto simp: greedyDotParenEnd_def split: list.splits if_splits)
  from r have "trimEnd body = rev (CHR '')'' # rcap)"
    by (metis rev_rev_ident)
  then have "trimEnd body = cap @ '')''" using cap by simp
  with trimEnd_decompose [of body]
  have "body = cap @ '')'' @ rev (takeWhile isWhiteSpace (rev body))" by simp
  with cap ne lt show ?thesis by auto
qed

lemma loomLabel_Some:
  assumes "loomLabel s = Some r"
  shows "\<exists>lab. s = lab @ r"
proof -
  from assms obtain k where "r = drop k s"
    by (auto simp: loomLabel_def split: if_splits)
  then have "s = take k s @ r" by simp
  then show ?thesis ..
qed

lemma loomNameMatch_has_name:
  assumes "loomNameMatch s = Some cap"
  shows "nameMatch s \<noteq> None"
proof -
  from assms obtain r body where
    lab: "loomLabel s = Some r" and d: "dropWhile isWhiteSpace r = CHR ''('' # body"
    and g: "greedyDotParenEnd body = Some cap"
    by (auto simp: loomNameMatch_def split: option.splits list.splits if_splits)
  from loomLabel_Some [OF lab] obtain lab' where s: "s = lab' @ r" ..
  have "r = takeWhile isWhiteSpace r @ dropWhile isWhiteSpace r" by simp
  with d have r: "r = takeWhile isWhiteSpace r @ CHR ''('' # body" by simp
  from greedyDotParenEnd_Some [OF g] obtain b where
    body: "body = cap @ '')'' @ b" and ne: "cap \<noteq> []"
    and lt: "\<forall>x \<in> set cap. \<not> isLineTerminator x"
    by blast
  have "s = (lab' @ takeWhile isWhiteSpace r) @ ''('' @ cap @ '')'' @ b"
    using s r body by (metis append.assoc append_Cons append_Nil)
  with nameMatch_complete [OF ne lt, of "lab' @ takeWhile isWhiteSpace r" b]
  show ?thesis by simp
qed

lemma nameless_classify:
  assumes "\<not> nullish e"
    and "js_or (getProp e ''comment'') (JStr []) = JStr c"
    and "nameMatch (trim c) = None"
  shows "classify e = Inr Dropped"
proof -
  have "loomNameMatch (trim c) = None"
    using loomNameMatch_has_name [of "trim c"] assms(3) by (cases "loomNameMatch (trim c)") auto
  with assms show ?thesis
    by (cases "getProp e ''content''") (auto simp: classify_def Let_def split: option.splits)
qed

lemma processEntries_append:
  "processEntries (xs @ ys) st =
     (case processEntries xs st of Inl err \<Rightarrow> Inl err | Inr st' \<Rightarrow> processEntries ys st')"
  by (induction xs arbitrary: st) (auto split: sum.splits)

lemma isRawEntry_not_nullish: "isRawEntry e \<Longrightarrow> \<not> nullish e"
  by (cases e) (auto simp: isRawEntry_def)

text \<open>
  C9. An entry of the data model whose comment, trimmed, has no name in parentheses (no
  opening parenthesis followed by one or more characters other than line terminators
  and a closing parenthesis) is dropped: it is classified as such, the loop body leaves
  the two collections as they are and raises nothing, and the conversion of a sequence
  of entries, or of a World Book with an \<open>entries\<close> mapping, gives the same result
  with the entry and without it. Such a comment cannot
  match a Loom heading either, since that pattern asks for a name in parentheses too
  (\<open>loomNameMatch_has_name\<close>).
\<close>

theorem nameless_entry_is_dropped:
  assumes "isRawEntry e"
    and "js_or (getProp e ''comment'') (JStr []) = JStr c"
    and "\<not> (\<exists>a n b. trim c = a @ ''('' @ n @ '')'' @ b \<and> n \<noteq> []
              \<and> (\<forall>x \<in> set n. \<not> isLineTerminator x))"
  shows "classify e = Inr Dropped
         \<and> processEntry e st = Inr st
         \<and> processEntries (xs @ e # ys) st = processEntries (xs @ ys) st
         \<and> assemble (xs @ e # ys) = assemble (xs @ ys)
         \<and> processWorldBook (JArr (xs @ e # ys)) = processWorldBook (JArr (xs @ ys))
         \<and> processWorldBook (JObj [(''entries'', JObj (kvs @ (k, e) # kvs'))]) =
             processWorldBook (JObj [(''entries'', JObj (kvs @ kvs'))])"
proof -
  have "nameMatch (trim c) = None"
    using assms(3) by (simp add: nameMatch_None_iff)
  with assms have c: "classify e = Inr Dropped"
    by (simp add: nameless_classify isRawEntry_not_nullish)
  then have step: "processEntry e st' = Inr st'" for st'
    by (simp add: processEntry_classify)
  have run: "processEntries (xs @ e # ys) st' = processEntries (xs @ ys) st'" for xs ys st'
    by (simp add: processEntries_append step split: sum.splits)
  have asm: "assemble (xs @ e # ys) = assemble (xs @ ys)" for xs ys
    by (simp add: assemble_def run)
  show ?thesis
    using c step run asm by (simp add: processWorldBook_def)
qed

theorem nameless_entry_is_dropped_witness:
  "isRawEntry readingList
   \<and> js_or (getProp readingList ''comment'') (JStr []) = JStr ''Reading list''
   \<and> nameMatch (trim ''Reading list'') = None
   \<and> classify readingList = Inr Dropped
   \<and> assemble ([kindEntry] @ readingList # [labelledEntry]) = assemble ([kindEntry] @ [labelledEntry])"
proof -
  have r: "isRawEntry readingList"
    by (simp add: isRawEntry_def readingList_def entry_def)
  have c: "js_or (getProp readingList ''comment'') (JStr []) = JStr ''Reading list''"
    by (simp add: js_or_def readingList_def entry_def)
  have n: "nameMatch (trim ''Reading list'') = None"
    by code_simp
  then have d: "\<not> (\<exists>a n b. trim ''Reading list'' = a @ ''('' @ n @ '')'' @ b \<and> n \<noteq> []
              \<and> (\<forall>x \<in> set n. \<not> isLineTerminator x))"
    by (simp add: nameMatch_None_iff)
  show ?thesis
    using r c n nameless_entry_is_dropped [OF r c d, of "([], [])" "[kindEntry]" "[labelledEntry]"]
    by simp
qed

subsection \<open>extractMetadata\<close>

text \<open>
  The search for a tag finds the first occurrence in the sense of \<open>firstTag\<close>, and
  finds nothing exactly when the text holds no tag; replacing the text of the match
  removes that occurrence.
\<close>

lemma startsWith_iff: "startsWith p s \<longleftrightarrow> (\<exists>b. s = p @ b)"
proof
  assume "startsWith p s"
  then have "s = p @ drop (length p) s"
    by (metis append_take_drop_id startsWith_def)
  then show "\<exists>b. s = p @ b" ..
next
  assume "\<exists>b. s = p @ b"
  then show "startsWith p s" by (auto simp: startsWith_def)
qed

lemma takeWhile_capture:
  "CHR '']'' \<notin> set cap \<Longrightarrow> takeWhile (\<lambda>c. c \<noteq> CHR '']'') (cap @ CHR '']'' # post) = cap"
  by (induction cap) auto

lemma bracketTagAt_iff:
  "bracketTagAt key s = Some cap \<longleftrightarrow> (\<exists>post. tagOccursAt key s [] cap post)"
proof
  assume h: "bracketTagAt key s = Some cap"
  define r where "r = drop (length key) s"
  from h have sw: "startsWith key s"
    by (auto simp: bracketTagAt_def split: if_splits)
  then have s: "s = key @ r"
    by (metis append_take_drop_id startsWith_def r_def)
  from h sw have cap: "cap = takeWhile (\<lambda>c. c \<noteq> CHR '']'') r" and ne: "cap \<noteq> []"
    and len: "length cap < length r"
    by (auto simp: bracketTagAt_def Let_def r_def split: if_splits)
  have dw: "dropWhile (\<lambda>c. c \<noteq> CHR '']'') r \<noteq> []"
    using len cap by (metis append_Nil2 less_irrefl takeWhile_dropWhile_id)
  then have "hd (dropWhile (\<lambda>c. c \<noteq> CHR '']'') r) = CHR '']''"
    using hd_dropWhile [of "\<lambda>c. c \<noteq> CHR '']''" r] by simp
  with dw obtain post where "dropWhile (\<lambda>c. c \<noteq> CHR '']'') r = CHR '']'' # post"
    by (cases "dropWhile (\<lambda>c. c \<noteq> CHR '']'') r") auto
  then have "r = cap @ CHR '']'' # post"
    using cap by (metis takeWhile_dropWhile_id)
  moreover have "CHR '']'' \<notin> set cap"
    using cap by (auto dest: set_takeWhileD)
  ultimately have "tagOccursAt key s [] cap post"
    using s ne by (simp add: tagOccursAt_def tagText_def)
  then show "\<exists>post. tagOccursAt key s [] cap post" ..
next
  assume "\<exists>post. tagOccursAt key s [] cap post"
  then obtain post where s: "s = key @ cap @ CHR '']'' # post" and ne: "cap \<noteq> []"
    and nb: "CHR '']'' \<notin> set cap"
    by (auto simp: tagOccursAt_def tagText_def)
  have "takeWhile (\<lambda>c. c \<noteq> CHR '']'') (cap @ CHR '']'' # post) = cap"
    using nb by (rule takeWhile_capture)
  then show "bracketTagAt key s = Some cap"
    using s ne by (simp add: bracketTagAt_def startsWith_def)
qed

lemma tagOccursAt_Cons:
  "tagOccursAt key (c # cs) (c # pre) cap post \<longleftrightarrow> tagOccursAt key cs pre cap post"
  by (simp add: tagOccursAt_def)

lemma tagOccursAt_Nil: "\<not> tagOccursAt key [] pre cap post"
  by (simp add: tagOccursAt_def tagText_def)

lemma tagOccursAt_cases:
  assumes "tagOccursAt key (c # cs) pre cap post"
  shows "pre = [] \<or> (\<exists>pre'. pre = c # pre' \<and> tagOccursAt key cs pre' cap post)"
  using assms by (cases pre) (auto simp: tagOccursAt_def)

lemma bracketTagMatch_first:
  assumes "bracketTagMatch key s = Some cap"
  shows "\<exists>pre post. firstTag key s pre cap post"
  using assms
proof (induction s)
  case Nil
  then have "\<exists>post. tagOccursAt key [] [] cap post"
    by (simp add: bracketTagAt_iff)
  then show ?case by (simp add: tagOccursAt_Nil)
next
  case (Cons c cs)
  show ?case
  proof (cases "bracketTagAt key (c # cs)")
    case (Some cap')
    with Cons.prems have "cap' = cap" by simp
    with Some obtain post where "tagOccursAt key (c # cs) [] cap post"
      by (auto simp: bracketTagAt_iff)
    then have "firstTag key (c # cs) [] cap post"
      by (simp add: firstTag_def)
    then show ?thesis by blast
  next
    case None
    with Cons.prems have "bracketTagMatch key cs = Some cap" by simp
    from Cons.IH [OF this] obtain pre post where f: "firstTag key cs pre cap post"
      by blast
    have "firstTag key (c # cs) (c # pre) cap post"
      unfolding firstTag_def
    proof (intro conjI allI impI)
      show "tagOccursAt key (c # cs) (c # pre) cap post"
        using f by (simp add: firstTag_def tagOccursAt_Cons)
    next
      fix pre' cap' post'
      assume o: "tagOccursAt key (c # cs) pre' cap' post'"
      from tagOccursAt_cases [OF o] show "length (c # pre) \<le> length pre'"
      proof
        assume "pre' = []"
        with o have "bracketTagAt key (c # cs) = Some cap'"
          by (auto simp: bracketTagAt_iff)
        with None show ?thesis by simp
      next
        assume "\<exists>p. pre' = c # p \<and> tagOccursAt key cs p cap' post'"
        then obtain p where "pre' = c # p" and "tagOccursAt key cs p cap' post'" by blast
        with f show ?thesis by (auto simp: firstTag_def)
      qed
    qed
    then show ?thesis by blast
  qed
qed

lemma bracketTagMatch_None:
  assumes "bracketTagMatch key s = None"
  shows "noTag key s"
  using assms
proof (induction s)
  case Nil
  then show ?case by (simp add: noTag_def tagOccursAt_Nil)
next
  case (Cons c cs)
  then have at: "bracketTagAt key (c # cs) = None" and rest: "bracketTagMatch key cs = None"
    by (auto split: option.splits)
  from Cons.IH [OF rest] have n: "noTag key cs" .
  show ?case
    unfolding noTag_def
  proof (intro allI notI)
    fix pre cap post
    assume o: "tagOccursAt key (c # cs) pre cap post"
    from tagOccursAt_cases [OF o] show False
    proof
      assume "pre = []"
      with o have "bracketTagAt key (c # cs) = Some cap"
        by (auto simp: bracketTagAt_iff)
      with at show False by simp
    next
      assume "\<exists>p. pre = c # p \<and> tagOccursAt key cs p cap post"
      with n show False by (auto simp: noTag_def)
    qed
  qed
qed

lemma capture_unique:
  assumes "cap @ CHR '']'' # post = cap' @ CHR '']'' # post'"
    and "CHR '']'' \<notin> set cap" and "CHR '']'' \<notin> set cap'"
  shows "cap = cap'"
proof -
  have "takeWhile (\<lambda>c. c \<noteq> CHR '']'') (cap @ CHR '']'' # post) = cap"
    using assms(2) by (rule takeWhile_capture)
  moreover have "takeWhile (\<lambda>c. c \<noteq> CHR '']'') (cap' @ CHR '']'' # post') = cap'"
    using assms(3) by (rule takeWhile_capture)
  ultimately show ?thesis using assms(1) by simp
qed

lemma firstTag_unique:
  assumes "firstTag key s pre cap post" and "firstTag key s pre' cap' post'"
  shows "pre' = pre \<and> cap' = cap \<and> post' = post"
proof -
  from assms have "length pre \<le> length pre'" and "length pre' \<le> length pre"
    unfolding firstTag_def by blast+
  then have len: "length pre = length pre'" by simp
  from assms have eq: "pre @ tagText key cap @ post = pre' @ tagText key cap' @ post'"
    by (auto simp: firstTag_def tagOccursAt_def)
  with len have p: "pre = pre'" and r: "tagText key cap @ post = tagText key cap' @ post'"
    by auto
  from r have "cap @ CHR '']'' # post = cap' @ CHR '']'' # post'"
    by (simp add: tagText_def)
  moreover from assms have "CHR '']'' \<notin> set cap" "CHR '']'' \<notin> set cap'"
    by (auto simp: firstTag_def tagOccursAt_def)
  ultimately have c: "cap = cap'" by (rule capture_unique)
  with r p show ?thesis by (simp add: tagText_def)
qed

lemma firstTag_match:
  assumes "firstTag key s pre cap post"
  shows "bracketTagMatch key s = Some cap"
proof (cases "bracketTagMatch key s")
  case None
  from bracketTagMatch_None [OF this] assms show ?thesis
    by (auto simp: noTag_def firstTag_def)
next
  case (Some cap')
  from bracketTagMatch_first [OF this] obtain pre' post' where "firstTag key s pre' cap' post'"
    by blast
  from firstTag_unique [OF assms this] Some show ?thesis by simp
qed

lemma noTag_match: "noTag key s \<Longrightarrow> bracketTagMatch key s = None"
proof (cases "bracketTagMatch key s")
  case None
  then show ?thesis by simp
next
  case (Some cap)
  assume "noTag key s"
  with bracketTagMatch_first [OF Some] show ?thesis
    by (auto simp: firstTag_def noTag_def)
qed

lemma removeFirst_first:
  assumes "pat \<noteq> []"
    and "\<forall>a b. pre @ pat @ post = a @ pat @ b \<longrightarrow> length pre \<le> length a"
  shows "removeFirst pat (pre @ pat @ post) = pre @ post"
  using assms(2)
proof (induction pre)
  case Nil
  from assms(1) obtain p ps where "pat = p # ps" by (cases pat) auto
  then show ?case by (simp add: startsWith_def)
next
  case (Cons c pre)
  have "\<not> startsWith pat ((c # pre) @ pat @ post)"
  proof
    assume "startsWith pat ((c # pre) @ pat @ post)"
    then obtain b where "(c # pre) @ pat @ post = [] @ pat @ b"
      by (auto simp: startsWith_iff)
    with Cons.prems have "length (c # pre) \<le> length ([]::string)" by blast
    then show False by simp
  qed
  moreover have "\<forall>a b. pre @ pat @ post = a @ pat @ b \<longrightarrow> length pre \<le> length a"
  proof (intro allI impI)
    fix a b
    assume "pre @ pat @ post = a @ pat @ b"
    then have "(c # pre) @ pat @ post = (c # a) @ pat @ b" by simp
    with Cons.prems have "length (c # pre) \<le> length (c # a)" by blast
    then show "length pre \<le> length a" by simp
  qed
  ultimately show ?case
    using Cons.IH by simp
qed

lemma firstTag_removeFirst:
  assumes "firstTag key s pre cap post"
  shows "removeFirst (tagText key cap) s = pre @ post"
proof -
  from assms have s: "s = pre @ tagText key cap @ post" and ne: "cap \<noteq> []"
    and nb: "CHR '']'' \<notin> set cap"
    by (auto simp: firstTag_def tagOccursAt_def)
  have "\<forall>a b. pre @ tagText key cap @ post = a @ tagText key cap @ b \<longrightarrow> length pre \<le> length a"
  proof (intro allI impI)
    fix a b
    assume "pre @ tagText key cap @ post = a @ tagText key cap @ b"
    with s ne nb have "tagOccursAt key s a cap b"
      by (simp add: tagOccursAt_def)
    with assms show "length pre \<le> length a"
      by (auto simp: firstTag_def)
  qed
  moreover have "tagText key cap \<noteq> []" by (simp add: tagText_def)
  ultimately show ?thesis
    unfolding s by (rule removeFirst_first [rotated])
qed

lemma bracketTagIndex_first:
  assumes "bracketTagMatch key s = Some cap" and "bracketTagIndex key s = Some i"
  shows "firstTag key s (take i s) cap (drop (i + length (tagText key cap)) s)"
proof -
  from bracketTagMatch_first [OF assms(1)] obtain pre post where f: "firstTag key s pre cap post"
    by blast
  have "i = length pre"
    using assms f
  proof (induction s arbitrary: i pre)
    case Nil
    then show ?case by (simp add: firstTag_def tagOccursAt_Nil)
  next
    case (Cons c cs)
    show ?case
    proof (cases "bracketTagAt key (c # cs)")
      case (Some cap')
      then obtain post' where "tagOccursAt key (c # cs) [] cap' post'"
        by (auto simp: bracketTagAt_iff)
      with Cons.prems(3) have "length pre \<le> length ([]::string)"
        unfolding firstTag_def by blast
      with Some Cons.prems(2) show ?thesis by simp
    next
      case None
      with Cons.prems obtain j where m: "bracketTagMatch key cs = Some cap"
        and j: "bracketTagIndex key cs = Some j" and i: "i = Suc j"
        by auto
      from Cons.prems(3) have o: "tagOccursAt key (c # cs) pre cap post"
        by (simp add: firstTag_def)
      have "pre \<noteq> []"
      proof
        assume "pre = []"
        with o have "\<exists>post. tagOccursAt key (c # cs) [] cap post" by blast
        then have "bracketTagAt key (c # cs) = Some cap"
          by (simp add: bracketTagAt_iff)
        with None show False by simp
      qed
      with tagOccursAt_cases [OF o] obtain p where p: "pre = c # p"
        and op: "tagOccursAt key cs p cap post"
        by blast
      have "firstTag key cs p cap post"
        unfolding firstTag_def
      proof (intro conjI allI impI)
        show "tagOccursAt key cs p cap post" by (rule op)
      next
        fix pre' cap' post'
        assume "tagOccursAt key cs pre' cap' post'"
        then have "tagOccursAt key (c # cs) (c # pre') cap' post'"
          by (simp add: tagOccursAt_Cons)
        with Cons.prems(3) have "length pre \<le> length (c # pre')"
          unfolding firstTag_def by blast
        with p show "length p \<le> length pre'" by simp
      qed
      from Cons.IH [OF m j this] i p show ?thesis by simp
    qed
  qed
  moreover from f have "s = pre @ tagText key cap @ post"
    by (simp add: firstTag_def tagOccursAt_def)
  ultimately have "take i s = pre" and "drop (i + length (tagText key cap)) s = post"
    by simp_all
  with f show ?thesis by simp
qed

lemma tag_cases: "noTag key c \<or> (\<exists>pre cap post. firstTag key c pre cap post)"
proof (cases "bracketTagMatch key c")
  case None
  then show ?thesis by (simp add: bracketTagMatch_None)
next
  case (Some cap)
  from bracketTagMatch_first [OF this] show ?thesis by blast
qed

text \<open>
  C7, as the code has it. For every text: the image and the author returned are the
  trimmed captures of the first \<open>[lumia_img=...]\<close> tag and of the first
  \<open>[lumia_author=...]\<close> tag of the text, and \<open>null\<close> for a kind of tag the text does
  not hold; nothing fails. The image tag is removed at its first occurrence and nowhere
  else. For the author tag, what is removed is the first occurrence of the text of that
  tag in what the image step has left, after trimming (nothing, when that text does not
  occur there). So with one kind of tag only, the cleaned text is the text without the
  first occurrence of the tag, trimmed, and every later occurrence stays; with no tag
  the text is returned as it is.
\<close>

theorem extractMetadata_first_occurrences:
  "(noTag ''[lumia_img='' c \<longrightarrow> image (extractMetadata c) = None) \<and>
   (noTag ''[lumia_author='' c \<longrightarrow> author (extractMetadata c) = None) \<and>
   (noTag ''[lumia_img='' c \<and> noTag ''[lumia_author='' c \<longrightarrow> content (extractMetadata c) = c) \<and>
   (\<forall>pre cap post. firstTag ''[lumia_img='' c pre cap post \<longrightarrow>
      image (extractMetadata c) = Some (trim cap) \<and>
      (noTag ''[lumia_author='' c \<longrightarrow> content (extractMetadata c) = trim (pre @ post)) \<and>
      (\<forall>pre' cap' post'. firstTag ''[lumia_author='' c pre' cap' post' \<longrightarrow>
         content (extractMetadata c) =
           trim (removeFirst (tagText ''[lumia_author='' cap') (trim (pre @ post))))) \<and>
   (\<forall>pre cap post. firstTag ''[lumia_author='' c pre cap post \<longrightarrow>
      author (extractMetadata c) = Some (trim cap) \<and>
      (noTag ''[lumia_img='' c \<longrightarrow> content (extractMetadata c) = trim (pre @ post)))"
proof -
  have none: "bracketTagMatch key c = None" if "noTag key c" for key
    using that by (rule noTag_match)
  have some: "bracketTagMatch key c = Some cap \<and> removeFirst (tagText key cap) c = pre @ post"
    if "firstTag key c pre cap post" for key pre cap post
    using that by (simp add: firstTag_match firstTag_removeFirst)
  show ?thesis
    by (auto simp add: extractMetadata_def Let_def split: option.splits dest!: none some)
qed

theorem extractMetadata_first_occurrences_witness:
  "firstTag ''[lumia_img='' librarianText
      ''A quiet librarian. '' ''http://x/img.png'' ''[lumia_author=Bob]''
   \<and> firstTag ''[lumia_author='' librarianText
      ''A quiet librarian. [lumia_img=http://x/img.png]'' ''Bob'' []
   \<and> image (extractMetadata librarianText) = Some ''http://x/img.png''
   \<and> author (extractMetadata librarianText) = Some ''Bob''
   \<and> content (extractMetadata librarianText) = ''A quiet librarian.''
   \<and> firstTag ''[lumia_img='' twoImagesText ''A'' ''x'' ''B[lumia_img=y]''
   \<and> noTag ''[lumia_author='' twoImagesText
   \<and> image (extractMetadata twoImagesText) = Some ''x''
   \<and> author (extractMetadata twoImagesText) = None
   \<and> content (extractMetadata twoImagesText) = ''AB[lumia_img=y]''"
proof -
  have m1: "bracketTagMatch ''[lumia_img='' librarianText = Some ''http://x/img.png''"
    and i1: "bracketTagIndex ''[lumia_img='' librarianText = Some 19"
    and m2: "bracketTagMatch ''[lumia_author='' librarianText = Some ''Bob''"
    and i2: "bracketTagIndex ''[lumia_author='' librarianText = Some 47"
    unfolding librarianText_def by code_simp+
  have m3: "bracketTagMatch ''[lumia_img='' twoImagesText = Some ''x''"
    and i3: "bracketTagIndex ''[lumia_img='' twoImagesText = Some 1"
    and m4: "bracketTagMatch ''[lumia_author='' twoImagesText = None"
    unfolding twoImagesText_def by code_simp+
  have f1: "firstTag ''[lumia_img='' librarianText
              ''A quiet librarian. '' ''http://x/img.png'' ''[lumia_author=Bob]''"
    using bracketTagIndex_first [OF m1 i1] by (simp add: librarianText_def tagText_def)
  have f2: "firstTag ''[lumia_author='' librarianText
              ''A quiet librarian. [lumia_img=http://x/img.png]'' ''Bob'' []"
    using bracketTagIndex_first [OF m2 i2] by (simp add: librarianText_def tagText_def)
  have f3: "firstTag ''[lumia_img='' twoImagesText ''A'' ''x'' ''B[lumia_img=y]''"
    using bracketTagIndex_first [OF m3 i3] by (simp add: twoImagesText_def tagText_def)
  have n4: "noTag ''[lumia_author='' twoImagesText"
    using m4 by (rule bracketTagMatch_None)
  have t1: "trim ''http://x/img.png'' = ''http://x/img.png''" "trim ''Bob'' = ''Bob''"
    "trim ''x'' = ''x''"
    "trim (removeFirst (tagText ''[lumia_author='' ''Bob'')
        (trim (''A quiet librarian. '' @ ''[lumia_author=Bob]''))) = ''A quiet librarian.''"
    "trim (''A'' @ ''B[lumia_img=y]'') = ''AB[lumia_img=y]''"
    by code_simp+
  have a: "image (extractMetadata librarianText) = Some ''http://x/img.png''"
    and b: "content (extractMetadata librarianText) = ''A quiet librarian.''"
    using extractMetadata_first_occurrences [of librarianText] f1 f2 t1 by metis+
  have c: "author (extractMetadata librarianText) = Some ''Bob''"
    using extractMetadata_first_occurrences [of librarianText] f2 t1 by metis
  have d: "image (extractMetadata twoImagesText) = Some ''x''"
    and e: "content (extractMetadata twoImagesText) = ''AB[lumia_img=y]''"
    using extractMetadata_first_occurrences [of twoImagesText] f3 n4 t1 by metis+
  have f: "author (extractMetadata twoImagesText) = None"
    using extractMetadata_first_occurrences [of twoImagesText] n4 by metis
  show ?thesis
    using f1 f2 f3 n4 a b c d e f by blast
qed

text \<open>
  C7 as stated fails when the two tags interfere. In the first text the image tag lies
  inside the capture of the author tag: the author is returned, but its tag is not in
  the text left by the image step, nothing more is removed, and the cleaned text
  begins with \<open>[lumia_author=\<close>. In the second text the one author tag is at the end
  (at index 34); removing the image tag glues an equal text together at the start, and
  that one is removed, while the tag at the end stays.
\<close>

theorem extractMetadata_interfering_tags:
  "bracketTagMatch ''[lumia_author='' nestedTagsText = Some ''B[lumia_img=x''
   \<and> author (extractMetadata nestedTagsText) = Some ''B[lumia_img=x''
   \<and> content (extractMetadata nestedTagsText) = ''[lumia_author=Bob]''
   \<and> bracketTagMatch ''[lumia_author='' splitTagText = Some ''Bob''
   \<and> bracketTagIndex ''[lumia_author='' splitTagText = Some 34
   \<and> take 34 splitTagText = ''[lumia_[lumia_img=x]author=Bob]AAA''
   \<and> content (extractMetadata splitTagText) = ''AAA[lumia_author=Bob]''"
  unfolding nestedTagsText_def splitTagText_def by code_simp

end
